theory Spec2Isabelle
  imports Complex_Main "HOL-Library.AList" "HOL-Library.Sublist"
begin

section \<open>Values and exceptions\<close>

text \<open>
  The program handles decoded JSON: what \<^verbatim>\<open>r.json()\<close> and \<^verbatim>\<open>json.load\<close> return.
  A dict is an association list in insertion order. A number stands for its exact value
  (Python's \<^verbatim>\<open>True\<close>, \<^verbatim>\<open>1\<close> and \<^verbatim>\<open>1.0\<close> are equal and hash alike); the non-finite
  floats that \<^verbatim>\<open>json.load\<close> also accepts have no counterpart here. A \<^typ>\<open>string\<close> is a
  list of 8-bit characters, read as the code points below 256.
\<close>

datatype json =
    JNull
  | JBool bool
  | JNum rat
  | JStr string
  | JArr "json list"
  | JObj "(string \<times> json) list"

text \<open>
  Exceptions are values. \<open>LibError\<close> is any exception raised inside a library call
  (a network failure, an invalid authorization code, a socket error). Two outcomes are
  not exceptions: \<open>Blocked\<close> is a call that never returns, and \<open>Unsupported\<close> is what
  the JSON decoder below answers on a text outside the part of JSON it covers.
\<close>

datatype error =
    AttributeError
  | KeyError
  | TypeError
  | IndexError
  | SystemExit string
  | HTTPError nat
  | JSONDecodeError
  | FileNotFoundError
  | Unsupported
  | Blocked
  | LibError string

definition and_then :: "error + 'a \<Rightarrow> ('a \<Rightarrow> error + 'b) \<Rightarrow> error + 'b" where
  "and_then m f = (case m of Inl e \<Rightarrow> Inl e | Inr x \<Rightarrow> f x)"

text \<open>\<^verbatim>\<open>obj.get(k, dflt)\<close>: only a dict has the method.\<close>

definition py_get :: "json \<Rightarrow> string \<Rightarrow> json \<Rightarrow> error + json" where
  "py_get obj k dflt =
     (case obj of
        JObj kvs \<Rightarrow> Inr (case map_of kvs k of Some v \<Rightarrow> v | None \<Rightarrow> dflt)
      | _ \<Rightarrow> Inl AttributeError)"

text \<open>\<^verbatim>\<open>obj[k]\<close> with a string \<open>k\<close>: a missing key of a dict is a KeyError, and a list,
  a string, a number or None subscripted by a string is a TypeError.\<close>

definition py_item :: "json \<Rightarrow> string \<Rightarrow> error + json" where
  "py_item obj k =
     (case obj of
        JObj kvs \<Rightarrow> (case map_of kvs k of Some v \<Rightarrow> Inr v | None \<Rightarrow> Inl KeyError)
      | _ \<Rightarrow> Inl TypeError)"

text \<open>\<^verbatim>\<open>for x in obj\<close>: a list gives its elements, a dict its keys, a string its
  characters; None, a bool and a number are not iterable.\<close>

definition py_iter :: "json \<Rightarrow> error + json list" where
  "py_iter obj =
     (case obj of
        JArr xs \<Rightarrow> Inr xs
      | JObj kvs \<Rightarrow> Inr (map (\<lambda>kv. JStr (fst kv)) kvs)
      | JStr s \<Rightarrow> Inr (map (\<lambda>c. JStr [c]) s)
      | _ \<Rightarrow> Inl TypeError)"

text \<open>A list comprehension whose element expression may raise: the first exception
  ends it.\<close>

fun comprehension :: "('a \<Rightarrow> error + 'b) \<Rightarrow> 'a list \<Rightarrow> error + 'b list" where
  "comprehension f [] = Inr []"
| "comprehension f (x # xs) =
     (case f x of
        Inl e \<Rightarrow> Inl e
      | Inr y \<Rightarrow> (case comprehension f xs of Inl e \<Rightarrow> Inl e | Inr ys \<Rightarrow> Inr (y # ys)))"

text \<open>
  Dict keys. A list and a dict are unhashable; the other values are keys, two of them the
  same key when Python's \<^verbatim>\<open>==\<close> holds, so a bool is the number 0 or 1.
\<close>

datatype pykey = KNone | KNum rat | KStr string

definition py_hash :: "json \<Rightarrow> error + pykey" where
  "py_hash v =
     (case v of
        JNull \<Rightarrow> Inr KNone
      | JBool b \<Rightarrow> Inr (KNum (if b then 1 else 0))
      | JNum q \<Rightarrow> Inr (KNum q)
      | JStr s \<Rightarrow> Inr (KStr s)
      | JArr _ \<Rightarrow> Inl TypeError
      | JObj _ \<Rightarrow> Inl TypeError)"

type_synonym flat_record = "(pykey \<times> json) list"

text \<open>\<^verbatim>\<open>dict(pairs)\<close>: the pairs are stored one by one; a key already present keeps
  its position and takes the new value, a new key goes to the end.\<close>

fun py_dict :: "flat_record \<Rightarrow> (json \<times> json) list \<Rightarrow> error + flat_record" where
  "py_dict d [] = Inr d"
| "py_dict d ((k, v) # ps) =
     (case py_hash k of
        Inl e \<Rightarrow> Inl e
      | Inr h \<Rightarrow> py_dict (AList.update h v d) ps)"

section \<open>Report flattener\<close>

text \<open>
  \<^verbatim>\<open>
  def parse_transaction_list(report_json):
      cols = [c["ColTitle"] for c in report_json.get("Columns", {}).get("Column", [])]
      out = []
      for row in report_json.get("Rows", {}).get("Row", []):
          if row.get("type") == "Data":
              values = [c.get("value") for c in row.get("ColData", [])]
              out.append(dict(zip(cols, values)))
      return out
  \<close>
\<close>

definition report_columns :: "json \<Rightarrow> error + json list" where
  "report_columns report_json =
     and_then (py_get report_json ''Columns'' (JObj [])) (\<lambda>columns.
     and_then (py_get columns ''Column'' (JArr [])) (\<lambda>column.
     and_then (py_iter column) (\<lambda>cs.
     comprehension (\<lambda>c. py_item c ''ColTitle'') cs)))"

definition report_rows :: "json \<Rightarrow> error + json list" where
  "report_rows report_json =
     and_then (py_get report_json ''Rows'' (JObj [])) (\<lambda>rows.
     and_then (py_get rows ''Row'' (JArr [])) (\<lambda>row.
     py_iter row))"

definition row_values :: "json \<Rightarrow> error + json list" where
  "row_values row =
     and_then (py_get row ''ColData'' (JArr [])) (\<lambda>coldata.
     and_then (py_iter coldata) (\<lambda>cs.
     comprehension (\<lambda>c. py_get c ''value'' JNull) cs))"

fun rows_loop :: "json list \<Rightarrow> flat_record list \<Rightarrow> json list \<Rightarrow> error + flat_record list" where
  "rows_loop cols out [] = Inr out"
| "rows_loop cols out (row # rest) =
     and_then (py_get row ''type'' JNull) (\<lambda>ty.
       if ty = JStr ''Data'' then
         and_then (row_values row) (\<lambda>vals.
         and_then (py_dict [] (zip cols vals)) (\<lambda>d.
         rows_loop cols (out @ [d]) rest))
       else rows_loop cols out rest)"

definition parse_transaction_list :: "json \<Rightarrow> error + flat_record list" where
  "parse_transaction_list report_json =
     and_then (report_columns report_json) (\<lambda>cols.
     and_then (report_rows report_json) (\<lambda>rows.
     rows_loop cols [] rows))"


subsection \<open>The shape of a report document\<close>

text \<open>
  A report document is a dict; its \<open>Columns.Column\<close> is a list of dicts with a string
  \<open>ColTitle\<close>, its \<open>Rows.Row\<close> a list of dicts whose \<open>ColData\<close> is a list of dicts.
  What the flattener reads with \<^verbatim>\<open>.get\<close> may be missing: \<open>Columns\<close>, \<open>Column\<close>,
  \<open>Rows\<close>, \<open>Row\<close>, \<open>type\<close>, \<open>ColData\<close>, \<open>value\<close>. Nothing relates the number of
  cells of a row to the number of columns.
\<close>

definition field :: "json \<Rightarrow> string \<Rightarrow> json option" where
  "field obj k = (case obj of JObj kvs \<Rightarrow> map_of kvs k | _ \<Rightarrow> None)"

definition is_obj :: "json \<Rightarrow> bool" where
  "is_obj v = (case v of JObj _ \<Rightarrow> True | _ \<Rightarrow> False)"

definition items :: "json \<Rightarrow> string \<Rightarrow> string \<Rightarrow> json list option" where
  "items doc outer inner =
     (case field doc outer of
        None \<Rightarrow> Some []
      | Some (JObj kvs) \<Rightarrow>
          (case map_of kvs inner of
             None \<Rightarrow> Some []
           | Some (JArr xs) \<Rightarrow> Some xs
           | Some _ \<Rightarrow> None)
      | Some _ \<Rightarrow> None)"

definition is_column :: "json \<Rightarrow> bool" where
  "is_column c = (case field c ''ColTitle'' of Some (JStr _) \<Rightarrow> True | _ \<Rightarrow> False)"

definition is_row :: "json \<Rightarrow> bool" where
  "is_row r \<longleftrightarrow> is_obj r \<and>
     (case field r ''ColData'' of
        None \<Rightarrow> True
      | Some (JArr cs) \<Rightarrow> list_all is_obj cs
      | Some _ \<Rightarrow> False)"

definition valid_report :: "json \<Rightarrow> bool" where
  "valid_report doc \<longleftrightarrow> is_obj doc \<and>
     (case items doc ''Columns'' ''Column'' of Some cs \<Rightarrow> list_all is_column cs | None \<Rightarrow> False) \<and>
     (case items doc ''Rows'' ''Row'' of Some rs \<Rightarrow> list_all is_row rs | None \<Rightarrow> False)"

definition column_title :: "json \<Rightarrow> string" where
  "column_title c = (case field c ''ColTitle'' of Some (JStr s) \<Rightarrow> s | _ \<Rightarrow> [])"

definition titles :: "json \<Rightarrow> string list" where
  "titles doc = (case items doc ''Columns'' ''Column'' of Some cs \<Rightarrow> map column_title cs | None \<Rightarrow> [])"

definition rows :: "json \<Rightarrow> json list" where
  "rows doc = (case items doc ''Rows'' ''Row'' of Some rs \<Rightarrow> rs | None \<Rightarrow> [])"

definition row_type :: "json \<Rightarrow> json" where
  "row_type r = (case field r ''type'' of Some t \<Rightarrow> t | None \<Rightarrow> JNull)"

definition cells :: "json \<Rightarrow> json list" where
  "cells r = (case field r ''ColData'' of Some (JArr cs) \<Rightarrow> cs | _ \<Rightarrow> [])"

definition cell_value :: "json \<Rightarrow> json" where
  "cell_value c = (case field c ''value'' of Some v \<Rightarrow> v | None \<Rightarrow> JNull)"

fun add_new :: "'a list \<Rightarrow> 'a list \<Rightarrow> 'a list" where
  "add_new acc [] = acc"
| "add_new acc (x # xs) = add_new (if x \<in> set acc then acc else acc @ [x]) xs"

definition first_seen :: "'a list \<Rightarrow> 'a list" where
  "first_seen xs = add_new [] xs"

lemma and_then_Inr [simp]: "and_then (Inr x) f = f x"
  by (simp add: and_then_def)

lemma and_then_Inl [simp]: "and_then (Inl e) f = Inl e"
  by (simp add: and_then_def)

lemma comprehension_ok:
  "(\<And>x. x \<in> set xs \<Longrightarrow> f x = Inr (g x)) \<Longrightarrow> comprehension f xs = Inr (map g xs)"
  by (induction xs) auto


lemma py_get_JObj [simp]:
  "py_get (JObj kvs) k d = Inr (case map_of kvs k of Some v \<Rightarrow> v | None \<Rightarrow> d)"
  by (simp add: py_get_def)

lemma py_iter_JArr [simp]: "py_iter (JArr xs) = Inr xs"
  by (simp add: py_iter_def)

lemma field_JObj [simp]: "field (JObj kvs) k = map_of kvs k"
  by (simp add: field_def)

lemma is_objE: "is_obj v \<Longrightarrow> (\<And>kvs. v = JObj kvs \<Longrightarrow> P) \<Longrightarrow> P"
  by (cases v) (simp_all add: is_obj_def)

lemma items_iter:
  assumes "items (JObj kvs) outer inner = Some xs"
  shows "and_then (py_get (JObj kvs) outer (JObj [])) (\<lambda>c.
           and_then (py_get c inner (JArr [])) py_iter) = Inr xs"
proof (cases "map_of kvs outer")
  case None
  with assms show ?thesis by (simp add: items_def)
next
  case (Some c)
  show ?thesis
  proof (cases c)
    case (JObj ckvs)
    show ?thesis
    proof (cases "map_of ckvs inner")
      case None
      with assms Some JObj show ?thesis by (simp add: items_def)
    next
      case (Some x)
      with assms \<open>map_of kvs outer = Some c\<close> JObj show ?thesis
        by (cases x) (simp_all add: items_def)
    qed
  qed (use assms Some in \<open>simp_all add: items_def\<close>)
qed

lemma is_column_item:
  assumes "is_column c"
  shows "py_item c ''ColTitle'' = Inr (JStr (column_title c))"
proof -
  from assms obtain v where v: "field c ''ColTitle'' = Some v"
    by (cases "field c ''ColTitle''") (simp_all add: is_column_def)
  with assms obtain s where s: "v = JStr s"
    by (cases v) (simp_all add: is_column_def)
  from v obtain kvs where c: "c = JObj kvs"
    by (cases c) (simp_all add: field_def)
  with v s show ?thesis
    by (simp add: py_item_def column_title_def)
qed

lemma report_columns_valid:
  assumes "valid_report doc"
  shows "report_columns doc = Inr (map JStr (titles doc))"
proof -
  from assms have "is_obj doc" by (simp add: valid_report_def)
  then obtain kvs where doc: "doc = JObj kvs" by (rule is_objE)
  from assms obtain cs where cs: "items doc ''Columns'' ''Column'' = Some cs" "list_all is_column cs"
    by (cases "items doc ''Columns'' ''Column''") (simp_all add: valid_report_def)
  have t: "comprehension (\<lambda>c. py_item c ''ColTitle'') cs = Inr (map (\<lambda>c. JStr (column_title c)) cs)"
    using cs(2) by (intro comprehension_ok) (simp add: list_all_iff is_column_item)
  have "report_columns doc =
          and_then (and_then (py_get doc ''Columns'' (JObj [])) (\<lambda>c.
            and_then (py_get c ''Column'' (JArr [])) py_iter))
            (comprehension (\<lambda>c. py_item c ''ColTitle''))"
    unfolding doc report_columns_def by (simp add: and_then_def split: sum.splits)
  also have "\<dots> = Inr (map (\<lambda>c. JStr (column_title c)) cs)"
    using items_iter [of kvs "''Columns''" "''Column''" cs] cs(1) t by (simp add: doc)
  finally show ?thesis
    using cs(1) by (simp add: titles_def comp_def)
qed


lemma report_rows_valid:
  assumes "valid_report doc"
  shows "report_rows doc = Inr (rows doc)"
proof -
  from assms have "is_obj doc" by (simp add: valid_report_def)
  then obtain kvs where doc: "doc = JObj kvs" by (rule is_objE)
  from assms obtain rs where rs: "items doc ''Rows'' ''Row'' = Some rs"
    by (cases "items doc ''Rows'' ''Row''") (simp_all add: valid_report_def)
  have "report_rows doc = Inr rs"
    using items_iter [of kvs "''Rows''" "''Row''" rs] rs
    by (simp add: doc report_rows_def)
  with rs show ?thesis by (simp add: rows_def)
qed

lemma rows_valid: "valid_report doc \<Longrightarrow> list_all is_row (rows doc)"
  by (cases "items doc ''Rows'' ''Row''") (simp_all add: valid_report_def rows_def)

lemma is_obj_value: "is_obj c \<Longrightarrow> py_get c ''value'' JNull = Inr (cell_value c)"
  by (erule is_objE) (simp add: cell_value_def split: option.splits)

lemma row_values_valid:
  assumes "is_row r"
  shows "row_values r = Inr (map cell_value (cells r))"
proof -
  from assms have "is_obj r" by (simp add: is_row_def)
  then obtain kvs where r: "r = JObj kvs" by (rule is_objE)
  show ?thesis
  proof (cases "map_of kvs ''ColData''")
    case None
    then show ?thesis by (simp add: r row_values_def cells_def)
  next
    case (Some cd)
    with assms obtain cs where cd: "cd = JArr cs" and cs: "list_all is_obj cs"
      by (cases cd) (simp_all add: is_row_def r)
    have "comprehension (\<lambda>c. py_get c ''value'' JNull) cs = Inr (map cell_value cs)"
      using cs by (intro comprehension_ok) (simp add: list_all_iff is_obj_value)
    with Some cd show ?thesis by (simp add: r row_values_def cells_def)
  qed
qed

lemma row_type_valid: "is_row r \<Longrightarrow> py_get r ''type'' JNull = Inr (row_type r)"
  unfolding is_row_def by (elim conjE is_objE) (simp add: row_type_def split: option.splits)

lemma py_dict_titles:
  "py_dict d (zip (map JStr ts) vs) = Inr (AList.updates (map KStr ts) vs d)"
proof (induction ts arbitrary: vs d)
  case Nil
  then show ?case by simp
next
  case (Cons t ts)
  then show ?case by (cases vs) (simp_all add: py_hash_def)
qed

definition flatten_row :: "string list \<Rightarrow> json \<Rightarrow> flat_record" where
  "flatten_row ts r = AList.updates (map KStr ts) (map cell_value (cells r)) []"

definition is_data_row :: "json \<Rightarrow> bool" where
  "is_data_row r \<longleftrightarrow> row_type r = JStr ''Data''"

lemma rows_loop_valid:
  "list_all is_row rs \<Longrightarrow>
   rows_loop (map JStr ts) out rs = Inr (out @ map (flatten_row ts) (filter is_data_row rs))"
proof (induction rs arbitrary: out)
  case Nil
  then show ?case by simp
next
  case (Cons r rs)
  then have r: "is_row r" and rs: "list_all is_row rs" by simp_all
  show ?case
  proof (cases "is_data_row r")
    case True
    then show ?thesis
      using Cons.IH [OF rs] r
      by (simp add: row_type_valid row_values_valid py_dict_titles flatten_row_def is_data_row_def)
  next
    case False
    then show ?thesis
      using Cons.IH [OF rs] r by (simp add: row_type_valid is_data_row_def)
  qed
qed

lemma parse_valid:
  assumes "valid_report doc"
  shows "parse_transaction_list doc =
           Inr (map (flatten_row (titles doc)) (filter is_data_row (rows doc)))"
  using assms rows_loop_valid [OF rows_valid [OF assms], of "titles doc" "[]"]
  by (simp add: parse_transaction_list_def report_columns_valid report_rows_valid)

lemma set_add_new: "set (add_new acc xs) = set acc \<union> set xs"
  by (induction xs arbitrary: acc) auto

lemma distinct_add_new: "distinct acc \<Longrightarrow> distinct (add_new acc xs)"
  by (induction xs arbitrary: acc) auto

lemma add_new_distinct: "distinct (acc @ xs) \<Longrightarrow> add_new acc xs = acc @ xs"
  by (induction xs arbitrary: acc) auto

lemma updates_keys: "map fst (AList.updates ks vs al) = add_new (map fst al) (take (length vs) ks)"
proof (induction ks arbitrary: vs al)
  case Nil
  then show ?case by simp
next
  case (Cons k ks)
  then show ?case by (cases vs) (simp_all add: AList.update_keys image_iff)
qed

lemma flatten_row_keys:
  "map fst (flatten_row ts r) = first_seen (map KStr (take (length (cells r)) ts))"
  by (simp add: flatten_row_def updates_keys first_seen_def take_map)


lemma update_fresh: "k \<notin> fst ` set al \<Longrightarrow> AList.update k v al = al @ [(k, v)]"
  by (induction al) auto

lemma updates_distinct:
  "distinct (map fst al @ ks) \<Longrightarrow> AList.updates ks vs al = al @ zip ks vs"
proof (induction ks arbitrary: vs al)
  case Nil
  then show ?case by simp
next
  case (Cons k ks)
  show ?case
  proof (cases vs)
    case Nil
    then show ?thesis by simp
  next
    case (Cons v vs')
    from Cons.prems have fresh: "k \<notin> fst ` set al" by auto
    from Cons.prems have "distinct (map fst (al @ [(k, v)]) @ ks)" by auto
    then have "AList.updates ks vs' (al @ [(k, v)]) = (al @ [(k, v)]) @ zip ks vs'"
      by (rule Cons.IH)
    with fresh Cons show ?thesis by (simp add: update_fresh)
  qed
qed

lemma flatten_row_distinct:
  "distinct ts \<Longrightarrow> flatten_row ts r = zip (map KStr ts) (map cell_value (cells r))"
  by (simp add: flatten_row_def updates_distinct distinct_map inj_on_def)

lemma flatten_row_keyset:
  assumes "length ts \<le> length (cells r)"
  shows "fst ` set (flatten_row ts r) = KStr ` set ts"
proof -
  have "set (map fst (flatten_row ts r)) = set (map KStr (take (length (cells r)) ts))"
    by (simp only: flatten_row_keys first_seen_def set_add_new) simp
  with assms show ?thesis by simp
qed


text \<open>
  What one record has to do with the row it comes from: its keys, in order, are the titles
  that got a cell, a repeated title counted where it first stands; they are all the titles
  when the row has a cell for every column; and with no title repeated the record is the
  titles paired with the cell values by position.
\<close>

definition row_record :: "string list \<Rightarrow> flat_record \<Rightarrow> json \<Rightarrow> bool" where
  "row_record ts rec r \<longleftrightarrow>
     map fst rec = first_seen (map KStr (take (length (cells r)) ts)) \<and>
     (length ts \<le> length (cells r) \<longrightarrow> fst ` set rec = KStr ` set ts) \<and>
     (distinct ts \<longrightarrow> rec = zip (map KStr ts) (map cell_value (cells r)))"

subsection \<open>Concrete documents\<close>

definition cell :: "string \<Rightarrow> json" where
  "cell v = JObj [(''value'', JStr v)]"

definition row :: "string \<Rightarrow> string list \<Rightarrow> json" where
  "row ty vs = JObj [(''type'', JStr ty), (''ColData'', JArr (map cell vs))]"

definition report :: "string list \<Rightarrow> json list \<Rightarrow> json" where
  "report ts rs =
     JObj [(''Columns'', JObj [(''Column'', JArr (map (\<lambda>t. JObj [(''ColTitle'', JStr t)]) ts))]),
           (''Rows'', JObj [(''Row'', JArr rs)])]"

lemmas report_eval =
  valid_report_def is_obj_def items_def field_def is_column_def is_row_def
  report_def row_def cell_def rows_def titles_def is_data_row_def row_type_def cells_def
  parse_transaction_list_def report_columns_def report_rows_def row_values_def
  py_get_def py_item_def py_iter_def py_hash_def and_then_def

text \<open>
  C1, as amended. For every document of the shape above the flattener returns, in row
  order, exactly one record for each row whose \<open>type\<close> is the string \<open>Data\<close> and none
  for any other row; each record is related to its row by \<open>row_record\<close>: its keys are
  the column titles in column order, cut to the number of cells of the row, so the key set
  is the set of column titles whenever the row has at least as many cells as there are
  columns.
\<close>

theorem flattener_records:
  assumes "valid_report doc"
  shows "\<exists>out. parse_transaction_list doc = Inr out \<and>
           length out = length (filter is_data_row (rows doc)) \<and>
           list_all2 (row_record (titles doc)) out (filter is_data_row (rows doc))"
proof -
  let ?rs = "filter is_data_row (rows doc)"
  let ?out = "map (flatten_row (titles doc)) ?rs"
  have "parse_transaction_list doc = Inr ?out"
    using assms by (rule parse_valid)
  moreover have "length ?out = length ?rs" by simp
  moreover have "list_all2 (row_record (titles doc)) ?out ?rs"
    unfolding list_all2_map1
    by (rule list_all2_refl)
       (simp add: row_record_def flatten_row_keys flatten_row_keyset flatten_row_distinct)
  ultimately show ?thesis by blast
qed

theorem flattener_records_witness:
  "valid_report (report [''Date'', ''Amount'']
       [row ''Data'' [''2024-01-01'', ''100.00''], row ''Section'' [''Total'', ''100.00'']]) \<and>
   (\<exists>out. parse_transaction_list (report [''Date'', ''Amount'']
       [row ''Data'' [''2024-01-01'', ''100.00''], row ''Section'' [''Total'', ''100.00'']]) = Inr out \<and>
      length out = 1 \<and>
      list_all2 (row_record [''Date'', ''Amount'']) out [row ''Data'' [''2024-01-01'', ''100.00'']])"
proof -
  let ?doc = "report [''Date'', ''Amount'']
       [row ''Data'' [''2024-01-01'', ''100.00''], row ''Section'' [''Total'', ''100.00'']]"
  have v: "valid_report ?doc" by (simp add: report_eval)
  have rs: "filter is_data_row (rows ?doc) = [row ''Data'' [''2024-01-01'', ''100.00'']]"
    by (simp add: report_eval)
  have ts: "titles ?doc = [''Date'', ''Amount'']"
    by (simp add: report_eval column_title_def)
  from flattener_records [OF v] show ?thesis
    unfolding rs ts using v by simp
qed

text \<open>
  C1 as stated fails twice. A row whose type is \<open>data\<close> in lower case gets no record:
  the comparison is with \<open>Data\<close>. And a \<open>Data\<close> row with one cell under two columns
  gets a record whose only key is the first title.
\<close>

theorem flattener_records_counterexample:
  "valid_report (report [''Date'', ''Amount''] [row ''data'' [''2024-01-01'', ''100.00'']]) \<and>
   parse_transaction_list (report [''Date'', ''Amount''] [row ''data'' [''2024-01-01'', ''100.00'']])
     = Inr [] \<and>
   valid_report (report [''Date'', ''Amount''] [row ''Data'' [''2024-01-01'']]) \<and>
   parse_transaction_list (report [''Date'', ''Amount''] [row ''Data'' [''2024-01-01'']])
     = Inr [[(KStr ''Date'', JStr ''2024-01-01'')]] \<and>
   fst ` set [(KStr ''Date'', JStr ''2024-01-01'')] \<noteq> KStr ` set [''Date'', ''Amount'']"
  by (simp add: report_eval)

text \<open>
  C9. A document with no rows, and a document none of whose rows has the type \<open>Data\<close>,
  both flatten to the empty list.
\<close>

theorem flattener_empty:
  assumes "valid_report doc"
  shows "(rows doc = [] \<longrightarrow> parse_transaction_list doc = Inr []) \<and>
         (list_all (\<lambda>r. row_type r \<noteq> JStr ''Data'') (rows doc) \<longrightarrow>
            parse_transaction_list doc = Inr [])"
proof (intro conjI impI)
  assume "rows doc = []"
  with parse_valid [OF assms] show "parse_transaction_list doc = Inr []" by simp
next
  assume "list_all (\<lambda>r. row_type r \<noteq> JStr ''Data'') (rows doc)"
  then have "filter is_data_row (rows doc) = []"
    by (simp add: list_all_iff is_data_row_def filter_empty_conv)
  with parse_valid [OF assms] show "parse_transaction_list doc = Inr []" by simp
qed

theorem flattener_empty_witness:
  "valid_report (report [''Date''] []) \<and> rows (report [''Date''] []) = [] \<and>
   parse_transaction_list (report [''Date''] []) = Inr [] \<and>
   valid_report (report [''Date''] [row ''Section'' [''x''], row ''data'' [''y'']]) \<and>
   list_all (\<lambda>r. row_type r \<noteq> JStr ''Data'')
     (rows (report [''Date''] [row ''Section'' [''x''], row ''data'' [''y'']])) \<and>
   parse_transaction_list (report [''Date''] [row ''Section'' [''x''], row ''data'' [''y'']]) = Inr []"
proof -
  have v1: "valid_report (report [''Date''] [])"
    and r1: "rows (report [''Date''] []) = []"
    by (simp_all add: report_eval)
  have v2: "valid_report (report [''Date''] [row ''Section'' [''x''], row ''data'' [''y'']])"
    and r2: "list_all (\<lambda>r. row_type r \<noteq> JStr ''Data'')
      (rows (report [''Date''] [row ''Section'' [''x''], row ''data'' [''y'']]))"
    by (simp_all add: report_eval)
  from flattener_empty [OF v1] r1 flattener_empty [OF v2] r2 v1 v2 show ?thesis by blast
qed


section \<open>The process and what surrounds it\<close>

text \<open>
  The OAuth client object of \<^verbatim>\<open>intuitlib\<close>, with the attributes the program sets and
  reads.
\<close>

record AuthClient =
  client_id :: string
  client_secret :: string
  environment :: string
  redirect_uri :: string
  access_token :: "string option"
  refresh_token :: "string option"

text \<open>
  An HTTP request, and a connection reaching the callback listener: it carries a request,
  or sends no request line at all, or sends one that the base class refuses with an error
  status without looking for a handler. And a response of the remote API.
\<close>

record request =
  command :: string
  path :: string

datatype connection = Silent | Refused nat | HttpRequest request

record response =
  status_code :: nat
  text_body :: string

text \<open>What the process does to the outside, in the order it does it.\<close>

datatype event =
    KeyringGet string string
  | NewAuthClient string string string string
  | SendResponse nat
  | EndHeaders
  | WfileWrite string
  | GetBearerToken "string option" "string option"
  | FileWrite string string
  | BrowserOpen string
  | HttpGet string "(string \<times> string) list" nat
  | Print string
  | HandlerFailed error

text \<open>
  The state: the environment variables and the OS keychain, the module's constants
  \<open>ENV\<close> and \<open>REDIRECT_URI\<close>, its global \<open>auth_client\<close>, the files of the working
  directory, the connections that will reach port 8000, and the events so far.
\<close>

record world =
  environ :: "string \<rightharpoonup> string"
  keychain :: "string \<times> string \<rightharpoonup> string"
  ENV :: string
  REDIRECT_URI :: string
  auth_client :: "AuthClient option"
  files :: "string \<rightharpoonup> string"
  inbox :: "connection list"
  trace :: "event list"

text \<open>
  The library calls whose results the program cannot determine: they are parameters.
  \<open>new_AuthClient\<close> is the constructor (it fetches the provider's discovery document),
  \<open>get_bearer_token\<close> the code exchange, which returns the client with its tokens set,
  \<open>parse_query\<close> is \<^verbatim>\<open>parse_qs(urlparse(path).query)\<close>, \<open>bind_server\<close> is the
  construction of the \<^verbatim>\<open>HTTPServer\<close> on port 8000, \<open>requests_get\<close> is
  \<^verbatim>\<open>requests.get\<close> with the final response, \<open>json_loads\<close> decodes a JSON text,
  \<open>json_dumps\<close> is \<^verbatim>\<open>json.dumps(_, indent=2)\<close>, \<open>py_str\<close> is the formatting of a
  value inside an f-string and \<open>str_upper\<close> is \<^verbatim>\<open>str.upper\<close>, which follows the
  Unicode case mapping.
\<close>

record lib =
  new_AuthClient :: "string \<Rightarrow> string \<Rightarrow> string \<Rightarrow> string \<Rightarrow> error + AuthClient"
  get_authorization_url :: "AuthClient \<Rightarrow> error + string"
  get_bearer_token :: "AuthClient \<Rightarrow> string option \<Rightarrow> string option \<Rightarrow> error + AuthClient"
  parse_query :: "string \<Rightarrow> error + (string \<rightharpoonup> string list)"
  bind_server :: "error + unit"
  requests_get :: "string \<Rightarrow> (string \<times> string) list \<Rightarrow> error + response"
  json_loads :: "string \<Rightarrow> error + json"
  json_dumps :: "json \<Rightarrow> string"
  py_str :: "json \<Rightarrow> string"
  str_upper :: "string \<Rightarrow> string"

text \<open>An action runs in a world and ends with a value or an exception, in a new world.\<close>

type_synonym 'a action = "world \<Rightarrow> (error + 'a) \<times> world"

definition raise :: "error \<Rightarrow> 'a action" where
  "raise e w = (Inl e, w)"

definition lift :: "error + 'a \<Rightarrow> 'a action" where
  "lift r w = (r, w)"

definition seq :: "'a action \<Rightarrow> ('a \<Rightarrow> 'b action) \<Rightarrow> 'b action" where
  "seq m f w = (case m w of (Inl e, w') \<Rightarrow> (Inl e, w') | (Inr x, w') \<Rightarrow> f x w')"

definition emit :: "event \<Rightarrow> unit action" where
  "emit e w = (Inr (), w\<lparr>trace := trace w @ [e]\<rparr>)"

section \<open>Credential store\<close>

definition SERVICE :: string where
  "SERVICE = ''qbo_receipt_processor''"

text \<open>
  \<^verbatim>\<open>
  def _get_secret(name: str) -> str | None:
      return os.getenv(f"QBO_{name.upper()}") or keyring.get_password(SERVICE, name)
  \<close>
  \<^verbatim>\<open>a or b\<close> is \<open>a\<close> when \<open>a\<close> is truthy, a non-empty string here; otherwise \<open>b\<close> is
  evaluated and is the result. The upper case of the name is what the library's
  \<^verbatim>\<open>str.upper\<close> makes of it.
\<close>

definition keyring_get_password :: "string \<Rightarrow> string \<Rightarrow> string option action" where
  "keyring_get_password service name w =
     (Inr (keychain w (service, name)), w\<lparr>trace := trace w @ [KeyringGet service name]\<rparr>)"

definition get_secret :: "lib \<Rightarrow> string \<Rightarrow> string option action" where
  "get_secret L name w =
     (case environ w (''QBO_'' @ str_upper L name) of
        Some v \<Rightarrow> if v \<noteq> [] then (Inr (Some v), w) else keyring_get_password SERVICE name w
      | None \<Rightarrow> keyring_get_password SERVICE name w)"

text \<open>
  \<^verbatim>\<open>
  REDIRECT_URI  = os.getenv("QBO_REDIRECT_URI", "http://localhost:8000/callback")
  ENV           = os.getenv("QBO_ENV", "production")
  auth_client = None
  \<close>
\<close>

definition getenv_default :: "(string \<rightharpoonup> string) \<Rightarrow> string \<Rightarrow> string \<Rightarrow> string" where
  "getenv_default env name dflt = (case env name of Some v \<Rightarrow> v | None \<Rightarrow> dflt)"

definition module_init ::
  "(string \<rightharpoonup> string) \<Rightarrow> (string \<times> string \<rightharpoonup> string) \<Rightarrow> (string \<rightharpoonup> string) \<Rightarrow> connection list \<Rightarrow> world" where
  "module_init env kc fs reqs =
     \<lparr>environ = env, keychain = kc,
      ENV = getenv_default env ''QBO_ENV'' ''production'',
      REDIRECT_URI = getenv_default env ''QBO_REDIRECT_URI'' ''http://localhost:8000/callback'',
      auth_client = None, files = fs, inbox = reqs, trace = []\<rparr>"

text \<open>
  \<^verbatim>\<open>
  def get_auth_client():
      global auth_client
      if auth_client is None:
          cid = _get_secret("client_id")
          cs  = _get_secret("client_secret")
          if not cid or not cs:
              raise SystemExit("Missing CLIENT_ID/CLIENT_SECRET.\n" ...)
          auth_client = AuthClient(client_id=cid, client_secret=cs,
                                   environment=ENV, redirect_uri=REDIRECT_URI)
      return auth_client
  \<close>
\<close>

definition missing_keys_message :: string where
  "missing_keys_message =
     ''Missing CLIENT_ID/CLIENT_SECRET.'' @ [CHR 0x0A] @
     ''Run:  python qbo_min.py setkeys   (stores them in your OS keychain)'' @ [CHR 0x0A] @
     ''Or set env vars QBO_CLIENT_ID / QBO_CLIENT_SECRET.''"

text \<open>\<^verbatim>\<open>not v\<close> for a value that is None or a string.\<close>

definition falsy :: "string option \<Rightarrow> bool" where
  "falsy v \<longleftrightarrow> (case v of None \<Rightarrow> True | Some s \<Rightarrow> s = [])"

definition construct_AuthClient :: "lib \<Rightarrow> string \<Rightarrow> string \<Rightarrow> AuthClient action" where
  "construct_AuthClient L cid cs w =
     (let w' = w\<lparr>trace := trace w @ [NewAuthClient cid cs (ENV w) (REDIRECT_URI w)]\<rparr> in
      case new_AuthClient L cid cs (ENV w) (REDIRECT_URI w) of
        Inl e \<Rightarrow> (Inl e, w')
      | Inr ac \<Rightarrow> (Inr ac, w'\<lparr>auth_client := Some ac\<rparr>))"

definition get_auth_client :: "lib \<Rightarrow> AuthClient action" where
  "get_auth_client L w =
     (case auth_client w of
        Some ac \<Rightarrow> (Inr ac, w)
      | None \<Rightarrow>
          seq (get_secret L ''client_id'') (\<lambda>cid.
          seq (get_secret L ''client_secret'') (\<lambda>cs.
            case (cid, cs) of
              (Some i, Some s) \<Rightarrow>
                if falsy cid \<or> falsy cs then raise (SystemExit missing_keys_message)
                else construct_AuthClient L i s
            | _ \<Rightarrow> raise (SystemExit missing_keys_message))) w)"


section \<open>Callback listener\<close>

text \<open>
  \<^verbatim>\<open>
  class CB(BaseHTTPRequestHandler):
      def do_GET(self):
          qs = parse_qs(urlparse(self.path).query)
          code = qs.get("code", [None])[0]
          realm_id = qs.get("realmId", [None])[0]
          self.send_response(200); self.end_headers()
          self.wfile.write(b"OK, you can close this tab.")
          ac = get_auth_client()
          ac.get_bearer_token(code, realm_id=realm_id)
          with open("tokens.json", "w") as f:
              json.dump({"access_token": ac.access_token,
                         "refresh_token": ac.refresh_token,
                         "realm_id": realm_id}, f, indent=2)
  \<close>
\<close>

text \<open>\<^verbatim>\<open>qs.get(k, [None])[0]\<close>\<close>

definition first_value :: "(string \<rightharpoonup> string list) \<Rightarrow> string \<Rightarrow> error + string option" where
  "first_value qs k =
     (case qs k of
        None \<Rightarrow> Inr None
      | Some [] \<Rightarrow> Inl IndexError
      | Some (v # _) \<Rightarrow> Inr (Some v))"

text \<open>The token record as the handler writes it: three values, each a string or None.\<close>

record token_record =
  tok_access :: "string option"
  tok_refresh :: "string option"
  tok_realm :: "string option"

text \<open>
  \<^verbatim>\<open>json.dump(d, f, indent=2)\<close> for a dict of strings and None. A string is written
  between double quotes with \<^verbatim>\<open>ensure_ascii\<close>: the quote and the backslash escaped,
  the short escapes for backspace, tab, newline, form feed and return, and
  \<^verbatim>\<open>\u00XX\<close> for every other character outside the range from space to tilde.
\<close>

definition hex_digit :: "nat \<Rightarrow> char" where
  "hex_digit d = ''0123456789abcdef'' ! d"

definition escape_char :: "char \<Rightarrow> string" where
  "escape_char c =
     (let n = (of_char c :: nat) in
      if n = 34 then [CHR 0x5C, CHR 0x22]
      else if n = 92 then [CHR 0x5C, CHR 0x5C]
      else if n = 8 then [CHR 0x5C, CHR ''b'']
      else if n = 9 then [CHR 0x5C, CHR ''t'']
      else if n = 10 then [CHR 0x5C, CHR ''n'']
      else if n = 12 then [CHR 0x5C, CHR ''f'']
      else if n = 13 then [CHR 0x5C, CHR ''r'']
      else if n < 32 \<or> 126 < n then
        [CHR 0x5C, CHR ''u'', CHR ''0'', CHR ''0'', hex_digit (n div 16), hex_digit (n mod 16)]
      else [c])"

definition encode_string :: "string \<Rightarrow> string" where
  "encode_string s = [CHR 0x22] @ concat (map escape_char s) @ [CHR 0x22]"

definition encode_value :: "string option \<Rightarrow> string" where
  "encode_value v = (case v of None \<Rightarrow> ''null'' | Some s \<Rightarrow> encode_string s)"

definition encode_item :: "string \<times> string option \<Rightarrow> string" where
  "encode_item kv = ''  '' @ encode_string (fst kv) @ '': '' @ encode_value (snd kv)"

fun join_items :: "string list \<Rightarrow> string" where
  "join_items [] = []"
| "join_items [x] = x"
| "join_items (x # y # ys) = x @ [CHR '','', CHR 0x0A] @ join_items (y # ys)"

definition json_dump_indent2 :: "(string \<times> string option) list \<Rightarrow> string" where
  "json_dump_indent2 d =
     (if d = [] then ''{}''
      else ''{'' @ [CHR 0x0A] @ join_items (map encode_item d) @ [CHR 0x0A] @ ''}'')"

definition token_items :: "token_record \<Rightarrow> (string \<times> string option) list" where
  "token_items t =
     [(''access_token'', tok_access t), (''refresh_token'', tok_refresh t),
      (''realm_id'', tok_realm t)]"

text \<open>\<^verbatim>\<open>open(name, "w")\<close> empties the file, and the text written becomes its content.\<close>

definition write_file :: "string \<Rightarrow> string \<Rightarrow> unit action" where
  "write_file name content w =
     (Inr (), w\<lparr>files := (files w)(name \<mapsto> content), trace := trace w @ [FileWrite name content]\<rparr>)"

definition save_tokens :: "token_record \<Rightarrow> unit action" where
  "save_tokens t = write_file ''tokens.json'' (json_dump_indent2 (token_items t))"

text \<open>The exchange sets the tokens on the client object, which is the global one.\<close>

definition exchange :: "lib \<Rightarrow> AuthClient \<Rightarrow> string option \<Rightarrow> string option \<Rightarrow> AuthClient action" where
  "exchange L ac code realm_id w =
     (let w' = w\<lparr>trace := trace w @ [GetBearerToken code realm_id]\<rparr> in
      case get_bearer_token L ac code realm_id of
        Inl e \<Rightarrow> (Inl e, w')
      | Inr ac' \<Rightarrow> (Inr ac', w'\<lparr>auth_client := Some ac'\<rparr>))"

definition ok_body :: string where
  "ok_body = ''OK, you can close this tab.''"

definition do_GET :: "lib \<Rightarrow> string \<Rightarrow> unit action" where
  "do_GET L p =
     seq (lift (parse_query L p)) (\<lambda>qs.
     seq (lift (first_value qs ''code'')) (\<lambda>code.
     seq (lift (first_value qs ''realmId'')) (\<lambda>realm_id.
     seq (emit (SendResponse 200)) (\<lambda>_.
     seq (emit EndHeaders) (\<lambda>_.
     seq (emit (WfileWrite ok_body)) (\<lambda>_.
     seq (get_auth_client L) (\<lambda>ac.
     seq (exchange L ac code realm_id) (\<lambda>ac'.
     save_tokens \<lparr>tok_access = access_token ac', tok_refresh = refresh_token ac',
                  tok_realm = realm_id\<rparr>))))))))"

text \<open>
  \<^verbatim>\<open>HTTPServer((host, port), CB).handle_request()\<close> waits for one connection and
  lets the handler class deal with it; with no connection it never returns, which is the
  outcome \<open>Blocked\<close>. The base class reads one request line
  (\<^verbatim>\<open>handle_one_request\<close>; the protocol version is 1.0, so the connection is closed
  after it). With no request line it returns, nothing called and nothing sent; a line it
  cannot parse it answers with an error status; a \<open>GET\<close> goes to \<open>do_GET\<close>; the
  handler has no other method, and the base class answers 501. The server catches what the
  handler raises, \<^verbatim>\<open>SystemExit\<close> apart (it is no \<^verbatim>\<open>Exception\<close>), reports it and
  returns.
\<close>

definition handle_one_request :: "lib \<Rightarrow> connection \<Rightarrow> unit action" where
  "handle_one_request L c w =
     (case c of
        Silent \<Rightarrow> (Inr (), w)
      | Refused status \<Rightarrow> emit (SendResponse status) w
      | HttpRequest r \<Rightarrow>
          if command r = ''GET'' then
            (case do_GET L (path r) w of
               (Inr u, w2) \<Rightarrow> (Inr (), w2)
             | (Inl (SystemExit m), w2) \<Rightarrow> (Inl (SystemExit m), w2)
             | (Inl e, w2) \<Rightarrow> (Inr (), w2\<lparr>trace := trace w2 @ [HandlerFailed e]\<rparr>))
          else emit (SendResponse 501) w)"

definition handle_request :: "lib \<Rightarrow> unit action" where
  "handle_request L w =
     (case inbox w of
        [] \<Rightarrow> (Inl Blocked, w)
      | c # rest \<Rightarrow> handle_one_request L c (w\<lparr>inbox := rest\<rparr>))"

text \<open>
  \<^verbatim>\<open>
  def login():
      ac = get_auth_client()
      url = ac.get_authorization_url([Scopes.ACCOUNTING])
      webbrowser.open(url)
      host, port = "localhost", 8000
      HTTPServer((host, port), CB).handle_request()  # serve single callback
  \<close>
  The handler reaches the client through \<open>get_auth_client\<close>, which finds the one that
  \<open>login\<close> has just stored.
\<close>

definition login :: "lib \<Rightarrow> unit action" where
  "login L =
     seq (get_auth_client L) (\<lambda>ac.
     seq (lift (get_authorization_url L ac)) (\<lambda>url.
     seq (emit (BrowserOpen url)) (\<lambda>_.
     seq (lift (bind_server L)) (\<lambda>_.
     handle_request L))))"

section \<open>Report client\<close>

text \<open>
  \<^verbatim>\<open>
  with open("tokens.json") as f:
      t = json.load(f)
  \<close>
\<close>

definition load_tokens :: "lib \<Rightarrow> json action" where
  "load_tokens L w =
     (case files w ''tokens.json'' of
        None \<Rightarrow> (Inl FileNotFoundError, w)
      | Some content \<Rightarrow> (json_loads L content, w))"

text \<open>Reading the module constant \<open>ENV\<close>.\<close>

definition read_ENV :: "string action" where
  "read_ENV w = (Inr (ENV w), w)"

text \<open>\<^verbatim>\<open>requests.get(url, headers=..., timeout=30)\<close>\<close>

definition http_get :: "lib \<Rightarrow> string \<Rightarrow> (string \<times> string) list \<Rightarrow> response action" where
  "http_get L url headers w =
     (requests_get L url headers, w\<lparr>trace := trace w @ [HttpGet url headers 30]\<rparr>)"

text \<open>\<^verbatim>\<open>r.raise_for_status()\<close> raises for the statuses from 400 to 599.\<close>

definition raise_for_status :: "response \<Rightarrow> error + unit" where
  "raise_for_status r =
     (if 400 \<le> status_code r \<and> status_code r < 600 then Inl (HTTPError (status_code r))
      else Inr ())"

definition bearer_headers :: "lib \<Rightarrow> json \<Rightarrow> (string \<times> string) list" where
  "bearer_headers L tok =
     [(''Authorization'', ''Bearer '' @ py_str L tok), (''Accept'', ''application/json'')]"

text \<open>
  \<^verbatim>\<open>
  def company_info_raw():
      with open("tokens.json") as f:
          t = json.load(f)
      base = ...
      url = f"{base}/v3/company/{t['realm_id']}/companyinfo/{t['realm_id']}?minorversion=75"
      r = requests.get(url, headers={"Authorization": f"Bearer {t['access_token']}",
                                     "Accept":"application/json"}, timeout=30)
      r.raise_for_status()
      print(json.dumps(r.json(), indent=2))
      print("DEBUG URL:", url)
  \<close>
\<close>

definition company_info_url :: "lib \<Rightarrow> string \<Rightarrow> json \<Rightarrow> json \<Rightarrow> string" where
  "company_info_url L base rid rid' =
     base @ ''/v3/company/'' @ py_str L rid @ ''/companyinfo/'' @ py_str L rid' @
       ''?minorversion=75''"

definition company_info_raw :: "lib \<Rightarrow> unit action" where
  "company_info_raw L =
     seq (load_tokens L) (\<lambda>t.
     seq read_ENV (\<lambda>env.
     let base = (if env = ''sandbox'' then ''https://sandbox-quickbooks.api.intuit.com''
                 else ''https://quickbooks.api.intuit.com'') in
     seq (lift (py_item t ''realm_id'')) (\<lambda>rid.
     seq (lift (py_item t ''realm_id'')) (\<lambda>rid'.
     seq (lift (py_item t ''access_token'')) (\<lambda>tok.
     seq (http_get L (company_info_url L base rid rid') (bearer_headers L tok)) (\<lambda>r.
     seq (lift (raise_for_status r)) (\<lambda>_.
     seq (lift (json_loads L (text_body r))) (\<lambda>body.
     seq (emit (Print (json_dumps L body))) (\<lambda>_.
     emit (Print (''DEBUG URL: '' @ company_info_url L base rid rid')))))))))))"

text \<open>
  \<^verbatim>\<open>
  def get_transactions(t_start_date, t_end_date):
      with open("tokens.json") as f:
          t = json.load(f)
      base = ...
      url = f"{base}/v3/company/{t['realm_id']}/reports/TransactionList?start_date={t_start_date}&end_date={t_end_date}&minorversion=75"
      r = requests.get(url, headers=..., timeout=30)
      r.raise_for_status()
      data = r.json()
      return data
  \<close>
\<close>

definition transactions_url :: "lib \<Rightarrow> string \<Rightarrow> json \<Rightarrow> string \<Rightarrow> string \<Rightarrow> string" where
  "transactions_url L base rid t_start_date t_end_date =
     base @ ''/v3/company/'' @ py_str L rid @ ''/reports/TransactionList?start_date='' @
       t_start_date @ ''&end_date='' @ t_end_date @ ''&minorversion=75''"

definition get_transactions :: "lib \<Rightarrow> string \<Rightarrow> string \<Rightarrow> json action" where
  "get_transactions L t_start_date t_end_date =
     seq (load_tokens L) (\<lambda>t.
     seq read_ENV (\<lambda>env.
     let base = (if env = ''sandbox'' then ''https://sandbox-quickbooks.api.intuit.com''
                 else ''https://quickbooks.api.intuit.com'') in
     seq (lift (py_item t ''realm_id'')) (\<lambda>rid.
     seq (lift (py_item t ''access_token'')) (\<lambda>tok.
     seq (http_get L (transactions_url L base rid t_start_date t_end_date)
            (bearer_headers L tok)) (\<lambda>r.
     seq (lift (raise_for_status r)) (\<lambda>_.
     lift (json_loads L (text_body r))))))))"

section \<open>Decoding the token file\<close>

text \<open>
  \<^verbatim>\<open>json.load\<close> on the texts the token file can hold after a save: one object whose
  values are strings, \<open>null\<close>, \<open>true\<close> or \<open>false\<close>, and such a value alone. A
  number, an array, a nested object and an escape above \<^verbatim>\<open>\u00ff\<close> are
  \<open>Unsupported\<close>. As in the library a repeated key keeps its first position and its
  last value, a control character inside a string is an error, and so is text after the
  value.
\<close>

definition is_ws :: "char \<Rightarrow> bool" where
  "is_ws c \<longleftrightarrow> c = CHR '' '' \<or> c = CHR 0x09 \<or> c = CHR 0x0A \<or> c = CHR 0x0D"

definition skip_ws :: "string \<Rightarrow> string" where
  "skip_ws s = dropWhile is_ws s"

definition hex_value :: "char \<Rightarrow> nat option" where
  "hex_value c =
     (let n = (of_char c :: nat) in
      if 48 \<le> n \<and> n \<le> 57 then Some (n - 48)
      else if 97 \<le> n \<and> n \<le> 102 then Some (n - 87)
      else if 65 \<le> n \<and> n \<le> 70 then Some (n - 55)
      else None)"

definition hex4 :: "char \<Rightarrow> char \<Rightarrow> char \<Rightarrow> char \<Rightarrow> nat option" where
  "hex4 a b c d =
     (case (hex_value a, hex_value b, hex_value c, hex_value d) of
        (Some x, Some y, Some z, Some u) \<Rightarrow> Some (((x * 16 + y) * 16 + z) * 16 + u)
      | _ \<Rightarrow> None)"

definition unescape :: "char \<Rightarrow> char option" where
  "unescape e =
     (if e = CHR 0x22 then Some (CHR 0x22)
      else if e = CHR 0x5C then Some (CHR 0x5C)
      else if e = CHR ''/'' then Some (CHR ''/'')
      else if e = CHR ''b'' then Some (CHR 0x08)
      else if e = CHR ''f'' then Some (CHR 0x0C)
      else if e = CHR ''n'' then Some (CHR 0x0A)
      else if e = CHR ''r'' then Some (CHR 0x0D)
      else if e = CHR ''t'' then Some (CHR 0x09)
      else None)"

definition cons_char :: "char \<Rightarrow> error + string \<times> string \<Rightarrow> error + string \<times> string" where
  "cons_char c r = (case r of Inl e \<Rightarrow> Inl e | Inr (s, rest) \<Rightarrow> Inr (c # s, rest))"

fun scan_string :: "string \<Rightarrow> error + string \<times> string" where
  "scan_string [] = Inl JSONDecodeError"
| "scan_string (c # cs) =
     (if c = CHR 0x22 then Inr ([], cs)
      else if c = CHR 0x5C then
        (case cs of
           [] \<Rightarrow> Inl JSONDecodeError
         | e # cs1 \<Rightarrow>
             if e = CHR ''u'' then
               (case cs1 of
                  h1 # h2 # h3 # h4 # cs2 \<Rightarrow>
                    (case hex4 h1 h2 h3 h4 of
                       None \<Rightarrow> Inl JSONDecodeError
                     | Some n \<Rightarrow>
                         if n < 256 then cons_char (char_of n) (scan_string cs2)
                         else Inl Unsupported)
                | _ \<Rightarrow> Inl JSONDecodeError)
             else
               (case unescape e of
                  None \<Rightarrow> Inl JSONDecodeError
                | Some ch \<Rightarrow> cons_char ch (scan_string cs1)))
      else if (of_char c :: nat) < 32 then Inl JSONDecodeError
      else cons_char c (scan_string cs))"

lemma cons_char_Inr:
  "cons_char c r = Inr (x, rest) \<longleftrightarrow> (\<exists>y. r = Inr (y, rest) \<and> x = c # y)"
  by (auto simp: cons_char_def split: sum.splits)

lemma scan_string_length: "scan_string s = Inr (x, rest) \<Longrightarrow> length rest < length s"
proof (induction "length s" arbitrary: s x rest rule: less_induct)
  case less
  show ?case
  proof (cases s)
    case Nil
    with less.prems show ?thesis by simp
  next
    case (Cons c cs)
    have ih: "length r < length s'" if "scan_string s' = Inr (y, r)" "length s' < length s" for s' y r
      using less.hyps [OF that(2) that(1)] .
    from less.prems show ?thesis
      unfolding Cons
      by (auto simp: cons_char_Inr Cons split: if_splits list.splits option.splits
          dest!: ih)
  qed
qed


definition scalar :: "string \<Rightarrow> error + json \<times> string" where
  "scalar s =
     (case s of
        [] \<Rightarrow> Inl JSONDecodeError
      | c # cs \<Rightarrow>
          if c = CHR 0x22 then
            (case scan_string cs of Inl e \<Rightarrow> Inl e | Inr (x, rest) \<Rightarrow> Inr (JStr x, rest))
          else if take 4 s = ''null'' then Inr (JNull, drop 4 s)
          else if take 4 s = ''true'' then Inr (JBool True, drop 4 s)
          else if take 5 s = ''false'' then Inr (JBool False, drop 5 s)
          else if c \<in> set ''-0123456789[{NI'' then Inl Unsupported
          else Inl JSONDecodeError)"

lemma scalar_length: "scalar s = Inr (v, rest) \<Longrightarrow> length rest < length s"
  by (cases s)
     (auto simp: scalar_def split: if_splits sum.splits dest: scan_string_length)

lemma skip_ws_length: "length (skip_ws s) \<le> length s"
  by (simp add: skip_ws_def length_dropWhile_le)

function members :: "(string \<times> json) list \<Rightarrow> string \<Rightarrow> error + json \<times> string" where
  "members acc s =
     (case s of
        [] \<Rightarrow> Inl JSONDecodeError
      | q # s1 \<Rightarrow>
          if q \<noteq> CHR 0x22 then Inl JSONDecodeError
          else
            (case scan_string s1 of
               Inl e \<Rightarrow> Inl e
             | Inr (k, s2) \<Rightarrow>
                 (case skip_ws s2 of
                    [] \<Rightarrow> Inl JSONDecodeError
                  | colon # s3 \<Rightarrow>
                      if colon \<noteq> CHR '':'' then Inl JSONDecodeError
                      else
                        (case scalar (skip_ws s3) of
                           Inl e \<Rightarrow> Inl e
                         | Inr (v, s4) \<Rightarrow>
                             (case skip_ws s4 of
                                [] \<Rightarrow> Inl JSONDecodeError
                              | d # s5 \<Rightarrow>
                                  if d = CHR '','' then members (AList.update k v acc) (skip_ws s5)
                                  else if d = CHR ''}'' then Inr (JObj (AList.update k v acc), s5)
                                  else Inl JSONDecodeError)))))"
  by pat_completeness auto


termination
proof (relation "measure (\<lambda>(acc, s). length s)", goal_cases)
  case 1
  then show ?case by simp
next
  case (2 acc s q s1 x k s2 colon s3 y v s4 d s5)
  from 2 have a: "length s2 < length s1"
    using scan_string_length [of s1 k s2] by simp
  from 2 have b: "length s3 < length s2"
    using skip_ws_length [of s2] by simp
  from 2 have c: "length s4 < length (skip_ws s3)"
    using scalar_length [of "skip_ws s3" v s4] by simp
  from 2 have e: "length s5 < length s4"
    using skip_ws_length [of s4] by simp
  from a b c e skip_ws_length [of s3] skip_ws_length [of s5] 2 show ?case by simp
qed

declare members.simps [simp del]


definition finish :: "json \<times> string \<Rightarrow> error + json" where
  "finish r = (if skip_ws (snd r) = [] then Inr (fst r) else Inl JSONDecodeError)"

definition json_decode :: "string \<Rightarrow> error + json" where
  "json_decode s =
     (case skip_ws s of
        [] \<Rightarrow> Inl JSONDecodeError
      | c # s1 \<Rightarrow>
          if c = CHR ''{'' then
            (case skip_ws s1 of
               [] \<Rightarrow> Inl JSONDecodeError
             | d # s2 \<Rightarrow>
                 if d = CHR ''}'' then finish (JObj [], s2)
                 else (case members [] (skip_ws s1) of Inl e \<Rightarrow> Inl e | Inr r \<Rightarrow> finish r))
          else (case scalar (skip_ws s) of Inl e \<Rightarrow> Inl e | Inr r \<Rightarrow> finish r))"

lemma hex_value_digit: "d < 16 \<Longrightarrow> hex_value (hex_digit d) = Some d"
proof -
  assume "d < 16"
  then consider "d = 0" | "d = 1" | "d = 2" | "d = 3" | "d = 4" | "d = 5" | "d = 6" | "d = 7"
    | "d = 8" | "d = 9" | "d = 10" | "d = 11" | "d = 12" | "d = 13" | "d = 14" | "d = 15"
    by atomize_elim arith
  then show ?thesis
    by cases (simp_all add: hex_digit_def hex_value_def)
qed

lemma hex4_byte:
  assumes "n < 256"
  shows "hex4 (CHR ''0'') (CHR ''0'') (hex_digit (n div 16)) (hex_digit (n mod 16)) = Some n"
proof -
  from assms have "n div 16 < 16" by simp
  then have a: "hex_value (hex_digit (n div 16)) = Some (n div 16)" by (rule hex_value_digit)
  have b: "hex_value (hex_digit (n mod 16)) = Some (n mod 16)" by (rule hex_value_digit) simp
  have z: "hex_value (CHR ''0'') = Some 0" by (simp add: hex_value_def)
  show ?thesis by (simp add: hex4_def a b z)
qed


lemma char_codes:
  "char_of (34::nat) = CHR 0x22" "char_of (92::nat) = CHR 0x5C" "char_of (8::nat) = CHR 0x08"
  "char_of (9::nat) = CHR 0x09" "char_of (10::nat) = CHR 0x0A" "char_of (12::nat) = CHR 0x0C"
  "char_of (13::nat) = CHR 0x0D"
  by code_simp+

lemma char_by_code: "of_char c = (n::nat) \<Longrightarrow> c = char_of n"
  by (metis char_of_char)

lemma scan_escape: "scan_string (escape_char c @ rest) = cons_char c (scan_string rest)"
proof -
  define n where "n = (of_char c :: nat)"
  have n: "of_char c = n" by (simp add: n_def)
  have lt: "n < 256" unfolding n_def by simp
  have c: "c = char_of n" using n by (rule char_by_code)
  consider "n = 34" | "n = 92" | "n = 8" | "n = 9" | "n = 10" | "n = 12" | "n = 13"
    | "n \<notin> {34, 92, 8, 9, 10, 12, 13}" "n < 32 \<or> 126 < n"
    | "n \<notin> {34, 92}" "32 \<le> n" "n \<le> 126"
    by atomize_elim auto
  then show ?thesis
  proof cases
    case 1
    with c have "c = CHR 0x22" by (simp add: char_codes)
    then show ?thesis by (simp add: escape_char_def unescape_def)
  next
    case 2
    with c have "c = CHR 0x5C" by (simp add: char_codes)
    then show ?thesis by (simp add: escape_char_def unescape_def)
  next
    case 3
    with c have "c = CHR 0x08" by (simp add: char_codes)
    then show ?thesis by (simp add: escape_char_def unescape_def)
  next
    case 4
    with c have "c = CHR 0x09" by (simp add: char_codes)
    then show ?thesis by (simp add: escape_char_def unescape_def)
  next
    case 5
    with c have "c = CHR 0x0A" by (simp add: char_codes)
    then show ?thesis by (simp add: escape_char_def unescape_def)
  next
    case 6
    with c have "c = CHR 0x0C" by (simp add: char_codes)
    then show ?thesis by (simp add: escape_char_def unescape_def)
  next
    case 7
    with c have "c = CHR 0x0D" by (simp add: char_codes)
    then show ?thesis by (simp add: escape_char_def unescape_def)
  next
    case 8
    then have e: "escape_char c =
        [CHR 0x5C, CHR ''u'', CHR ''0'', CHR ''0'', hex_digit (n div 16), hex_digit (n mod 16)]"
      by (auto simp: escape_char_def n Let_def)
    show ?thesis
      unfolding e using lt by (simp add: hex4_byte c [symmetric])
  next
    case 9
    then have e: "escape_char c = [c]"
      by (auto simp: escape_char_def n Let_def)
    from 9 n have "c \<noteq> CHR 0x22" "c \<noteq> CHR 0x5C" by auto
    with 9 n show ?thesis unfolding e by simp
  qed
qed

lemma scan_encoded:
  "scan_string (concat (map escape_char s) @ CHR 0x22 # rest) = Inr (s, rest)"
  by (induction s) (simp_all add: scan_escape cons_char_def)


text \<open>The decoder undoes the encoder. A string or None as a JSON value:\<close>

definition opt_json :: "string option \<Rightarrow> json" where
  "opt_json v = (case v of None \<Rightarrow> JNull | Some s \<Rightarrow> JStr s)"

lemma skip_ws_space [simp]: "skip_ws (CHR '' '' # s) = skip_ws s"
  by (simp add: skip_ws_def is_ws_def)

lemma skip_ws_newline [simp]: "skip_ws (CHR 0x0A # s) = skip_ws s"
  by (simp add: skip_ws_def is_ws_def)

lemma skip_ws_other: "\<not> is_ws c \<Longrightarrow> skip_ws (c # s) = c # s"
  by (simp add: skip_ws_def)

lemma skip_ws_Nil [simp]: "skip_ws [] = []"
  by (simp add: skip_ws_def)

lemma not_ws [simp]:
  "\<not> is_ws (CHR 0x22)" "\<not> is_ws (CHR '':'')" "\<not> is_ws (CHR '','')" "\<not> is_ws (CHR ''}'')"
  "\<not> is_ws (CHR ''{'')" "\<not> is_ws (CHR ''n'')"
  by (simp_all add: is_ws_def)

lemma scalar_encoded: "scalar (encode_value v @ rest) = Inr (opt_json v, rest)"
proof (cases v)
  case None
  then show ?thesis by (simp add: encode_value_def scalar_def opt_json_def)
next
  case (Some s)
  then show ?thesis
    by (simp add: encode_value_def encode_string_def scalar_def opt_json_def scan_encoded)
qed

lemma skip_ws_encoded: "skip_ws (encode_value v @ rest) = encode_value v @ rest"
  by (cases v) (simp_all add: encode_value_def encode_string_def skip_ws_other)

text \<open>One member: the key, the colon, the value, and then what follows the value.\<close>

lemma members_item:
  "members acc (CHR 0x22 # concat (map escape_char k) @ CHR 0x22 # CHR '':'' # CHR '' '' #
       encode_value v @ rest) =
     (case skip_ws rest of
        [] \<Rightarrow> Inl JSONDecodeError
      | d # s5 \<Rightarrow>
          if d = CHR '','' then members (AList.update k (opt_json v) acc) (skip_ws s5)
          else if d = CHR ''}'' then Inr (JObj (AList.update k (opt_json v) acc), s5)
          else Inl JSONDecodeError)"
  by (subst members.simps)
     (simp add: scan_encoded skip_ws_other skip_ws_encoded scalar_encoded)

lemma encode_item_unfold:
  "encode_item (k, v) @ rest =
     CHR '' '' # CHR '' '' # CHR 0x22 # concat (map escape_char k) @ CHR 0x22 # CHR '':'' #
       CHR '' '' # encode_value v @ rest"
  by (simp add: encode_item_def encode_string_def)

lemma members_items:
  "members acc (skip_ws (join_items (map encode_item (x # xs)) @ CHR 0x0A # CHR ''}'' # rest)) =
     Inr (JObj (AList.updates (map fst (x # xs)) (map (\<lambda>kv. opt_json (snd kv)) (x # xs)) acc), rest)"
proof (induction xs arbitrary: x acc)
  case Nil
  obtain k v where x: "x = (k, v)" by (cases x)
  show ?case
    by (simp add: x encode_item_unfold skip_ws_other members_item)
next
  case (Cons y ys)
  obtain k v where x: "x = (k, v)" by (cases x)
  have "members acc (skip_ws (join_items (map encode_item (x # y # ys)) @ CHR 0x0A # CHR ''}'' # rest))
      = members (AList.update k (opt_json v) acc)
          (skip_ws (join_items (map encode_item (y # ys)) @ CHR 0x0A # CHR ''}'' # rest))"
    by (simp add: x encode_item_unfold skip_ws_other members_item)
  also have "\<dots> = Inr (JObj (AList.updates (map fst (y # ys))
      (map (\<lambda>kv. opt_json (snd kv)) (y # ys)) (AList.update k (opt_json v) acc)), rest)"
    by (rule Cons.IH)
  finally show ?case by (simp add: x)
qed

lemma decode_dump:
  "json_decode (json_dump_indent2 d) =
     Inr (JObj (AList.updates (map fst d) (map (\<lambda>kv. opt_json (snd kv)) d) []))"
proof (cases d)
  case Nil
  then show ?thesis
    by (simp add: json_dump_indent2_def json_decode_def skip_ws_other finish_def)
next
  case (Cons x xs)
  define body where "body = join_items (map encode_item (x # xs)) @ [CHR 0x0A, CHR ''}'']"
  obtain k v where x: "x = (k, v)" by (cases x)
  obtain tail where sk: "skip_ws body = CHR 0x22 # tail"
    unfolding body_def by (cases xs) (simp_all add: x encode_item_unfold skip_ws_other)
  have "members [] (skip_ws body) =
     Inr (JObj (AList.updates (map fst (x # xs)) (map (\<lambda>kv. opt_json (snd kv)) (x # xs)) []), [])"
    unfolding body_def using members_items [of "[]" x xs "[]"] by simp
  then have m: "members [] (CHR 0x22 # tail) =
     Inr (JObj (AList.updates (map fst (x # xs)) (map (\<lambda>kv. opt_json (snd kv)) (x # xs)) []), [])"
    unfolding sk .
  have "json_dump_indent2 d = CHR ''{'' # CHR 0x0A # body"
    by (simp add: json_dump_indent2_def Cons body_def)
  then have "json_decode (json_dump_indent2 d) =
      (case members [] (CHR 0x22 # tail) of Inl e \<Rightarrow> Inl e | Inr r \<Rightarrow> finish r)"
    by (simp add: json_decode_def skip_ws_other sk)
  also have "\<dots> = Inr (JObj (AList.updates (map fst (x # xs))
      (map (\<lambda>kv. opt_json (snd kv)) (x # xs)) []))"
    by (simp add: m finish_def)
  finally show ?thesis by (simp add: Cons)
qed

section \<open>Properties of the credential store\<close>

text \<open>The events that go to the network: the constructor, which fetches the provider's
  discovery document, the code exchange, and a request to the API.\<close>

definition is_network :: "event \<Rightarrow> bool" where
  "is_network e = (case e of NewAuthClient _ _ _ _ \<Rightarrow> True | GetBearerToken _ _ \<Rightarrow> True
     | HttpGet _ _ _ \<Rightarrow> True | _ \<Rightarrow> False)"

text \<open>A lookup consults the keychain when it adds the read to the trace.\<close>

definition consults_keychain :: "lib \<Rightarrow> string \<Rightarrow> world \<Rightarrow> bool" where
  "consults_keychain L name w \<longleftrightarrow>
     trace (snd (get_secret L name w)) = trace w @ [KeyringGet SERVICE name]"

text \<open>
  C4, as amended. The credential lookup prefers a non-empty environment value: with the
  variable \<open>QBO_\<close> followed by the upper-cased name set to a non-empty string, that string
  is returned whatever the keychain holds and the keychain is not read. The keychain is
  read exactly when the variable is absent or empty, and then its entry is the result. With
  \<open>QBO_CLIENT_ID\<close> set to \<open>abc\<close> (the upper case of \<open>client_id\<close> being \<open>CLIENT_ID\<close>)
  the lookup of \<open>client_id\<close> returns \<open>abc\<close>. The upper-casing is the library's, whatever
  it does to the name.
\<close>

theorem get_secret_prefers_env:
  "(environ w (''QBO_'' @ str_upper L name) = Some v \<and> v \<noteq> [] \<longrightarrow>
      get_secret L name w = (Inr (Some v), w) \<and> \<not> consults_keychain L name w) \<and>
   (consults_keychain L name w \<longleftrightarrow>
      environ w (''QBO_'' @ str_upper L name) = None \<or> environ w (''QBO_'' @ str_upper L name) = Some []) \<and>
   (consults_keychain L name w \<longrightarrow> fst (get_secret L name w) = Inr (keychain w (SERVICE, name))) \<and>
   (str_upper L ''client_id'' = ''CLIENT_ID'' \<and> environ w ''QBO_CLIENT_ID'' = Some ''abc'' \<longrightarrow>
      get_secret L ''client_id'' w = (Inr (Some ''abc''), w) \<and>
      \<not> consults_keychain L ''client_id'' w)"
proof -
  let ?k = "''QBO_'' @ str_upper L name"
  have 1: "get_secret L name w = (Inr (Some v), w) \<and> \<not> consults_keychain L name w"
    if "environ w ?k = Some v" "v \<noteq> []" for v
    using that by (simp add: get_secret_def consults_keychain_def)
  have 2: "consults_keychain L name w \<and> fst (get_secret L name w) = Inr (keychain w (SERVICE, name))"
    if "environ w ?k = None \<or> environ w ?k = Some []"
    using that by (auto simp: get_secret_def consults_keychain_def keyring_get_password_def)
  have 3: "environ w ?k = None \<or> environ w ?k = Some []" if "consults_keychain L name w"
  proof (cases "environ w ?k")
    case None
    then show ?thesis by simp
  next
    case (Some u)
    with that 1 [of u] show ?thesis by (cases "u = []") simp_all
  qed
  have 4: "get_secret L ''client_id'' w = (Inr (Some ''abc''), w) \<and>
      \<not> consults_keychain L ''client_id'' w"
    if "str_upper L ''client_id'' = ''CLIENT_ID''" "environ w ''QBO_CLIENT_ID'' = Some ''abc''"
    using that by (simp add: get_secret_def consults_keychain_def)
  from 1 2 3 4 show ?thesis by blast
qed


text \<open>
  C10. With the environment variable of a name (\<open>QBO_\<close> and the library's upper case of
  the name) set to the empty string the lookup falls through to the keychain, and the
  result is the environment value, with the keychain left alone, exactly when that value
  is not empty.
\<close>

theorem get_secret_empty_env:
  assumes "environ w (''QBO_'' @ str_upper L name) = Some v"
  shows "(v = [] \<longrightarrow>
            get_secret L name w =
              (Inr (keychain w (SERVICE, name)),
               w\<lparr>trace := trace w @ [KeyringGet SERVICE name]\<rparr>)) \<and>
         (get_secret L name w = (Inr (Some v), w) \<longleftrightarrow> v \<noteq> [])"
proof (cases "v = []")
  case True
  with assms have g: "get_secret L name w =
      (Inr (keychain w (SERVICE, name)), w\<lparr>trace := trace w @ [KeyringGet SERVICE name]\<rparr>)"
    by (simp add: get_secret_def keyring_get_password_def)
  have "trace (w\<lparr>trace := trace w @ [KeyringGet SERVICE name]\<rparr>) \<noteq> trace w" by simp
  then have "w\<lparr>trace := trace w @ [KeyringGet SERVICE name]\<rparr> \<noteq> w" by metis
  with g True show ?thesis by simp
next
  case False
  with assms show ?thesis by (simp add: get_secret_def)
qed

text \<open>The value and the keychain reads of a lookup, apart.\<close>

definition secret_of :: "lib \<Rightarrow> string \<Rightarrow> world \<Rightarrow> string option" where
  "secret_of L name w =
     (case environ w (''QBO_'' @ str_upper L name) of
        Some v \<Rightarrow> if v \<noteq> [] then Some v else keychain w (SERVICE, name)
      | None \<Rightarrow> keychain w (SERVICE, name))"

definition keychain_reads :: "lib \<Rightarrow> string \<Rightarrow> world \<Rightarrow> event list" where
  "keychain_reads L name w =
     (case environ w (''QBO_'' @ str_upper L name) of
        Some v \<Rightarrow> if v \<noteq> [] then [] else [KeyringGet SERVICE name]
      | None \<Rightarrow> [KeyringGet SERVICE name])"

lemma get_secret_eq:
  "get_secret L name w = (Inr (secret_of L name w), w\<lparr>trace := trace w @ keychain_reads L name w\<rparr>)"
  by (simp add: get_secret_def secret_of_def keychain_reads_def keyring_get_password_def
      split: option.splits)

lemma secret_of_trace [simp]: "secret_of L name (w\<lparr>trace := t\<rparr>) = secret_of L name w"
  by (simp add: secret_of_def split: option.splits)

lemma keychain_reads_trace [simp]: "keychain_reads L name (w\<lparr>trace := t\<rparr>) = keychain_reads L name w"
  by (simp add: keychain_reads_def split: option.splits)

lemma keychain_reads_no_network [simp]: "filter is_network (keychain_reads L name w) = []"
  by (simp add: keychain_reads_def is_network_def split: option.splits)

lemma seq_unfold:
  "seq m f w = (case m w of (Inl e, w') \<Rightarrow> (Inl e, w') | (Inr x, w') \<Rightarrow> f x w')"
  by (simp add: seq_def)

definition after_secrets :: "lib \<Rightarrow> world \<Rightarrow> world" where
  "after_secrets L w =
     w\<lparr>trace := trace w @ keychain_reads L ''client_id'' w @ keychain_reads L ''client_secret'' w\<rparr>"

lemma get_auth_client_None:
  assumes "auth_client w = None"
  shows "get_auth_client L w =
           (case (secret_of L ''client_id'' w, secret_of L ''client_secret'' w) of
              (Some i, Some s) \<Rightarrow>
                if i = [] \<or> s = [] then (Inl (SystemExit missing_keys_message), after_secrets L w)
                else construct_AuthClient L i s (after_secrets L w)
            | _ \<Rightarrow> (Inl (SystemExit missing_keys_message), after_secrets L w))"
  using assms
  by (simp add: get_auth_client_def seq_unfold get_secret_eq raise_def falsy_def after_secrets_def
      split: option.splits)

lemma after_secrets_fields [simp]:
  "auth_client (after_secrets L w) = auth_client w"
  "ENV (after_secrets L w) = ENV w"
  "REDIRECT_URI (after_secrets L w) = REDIRECT_URI w"
  "files (after_secrets L w) = files w"
  "inbox (after_secrets L w) = inbox w"
  "filter is_network (trace (after_secrets L w)) = filter is_network (trace w)"
  by (simp_all add: after_secrets_def)

text \<open>
  C5, as amended. On first use (no client cached yet): if the client identifier or the
  client secret resolves to None or to the empty string, \<open>get_auth_client\<close> raises
  SystemExit with the message that names the \<open>setkeys\<close> command and the two environment
  variables, no network call has been made and no client is stored; if both are non-empty
  strings, the constructor is called with them, \<open>ENV\<close> and \<open>REDIRECT_URI\<close>, and its
  outcome is the outcome of \<open>get_auth_client\<close>, the client stored when it succeeds.
\<close>

theorem get_auth_client_first_use:
  assumes "auth_client w = None"
    and "fst (get_secret L ''client_id'' w) = Inr cid"
    and "fst (get_secret L ''client_secret'' w) = Inr cs"
  shows "(falsy cid \<or> falsy cs \<longrightarrow>
            fst (get_auth_client L w) = Inl (SystemExit missing_keys_message) \<and>
            filter is_network (trace (snd (get_auth_client L w))) = filter is_network (trace w) \<and>
            auth_client (snd (get_auth_client L w)) = None) \<and>
         (\<not> falsy cid \<and> \<not> falsy cs \<longrightarrow>
            (\<exists>i s. cid = Some i \<and> cs = Some s \<and>
               fst (get_auth_client L w) = new_AuthClient L i s (ENV w) (REDIRECT_URI w) \<and>
               auth_client (snd (get_auth_client L w)) =
                 (case new_AuthClient L i s (ENV w) (REDIRECT_URI w) of
                    Inl e \<Rightarrow> None | Inr ac \<Rightarrow> Some ac)))"
proof -
  from assms(2) have cid: "secret_of L ''client_id'' w = cid" by (simp add: get_secret_eq)
  from assms(3) have cs: "secret_of L ''client_secret'' w = cs" by (simp add: get_secret_eq)
  note eq = get_auth_client_None [OF assms(1), of L, unfolded cid cs]
  show ?thesis
  proof (intro conjI impI)
    assume f: "falsy cid \<or> falsy cs"
    then have r: "get_auth_client L w = (Inl (SystemExit missing_keys_message), after_secrets L w)"
      unfolding eq by (auto simp: falsy_def split: option.splits)
    show "fst (get_auth_client L w) = Inl (SystemExit missing_keys_message)"
      by (simp add: r)
    show "filter is_network (trace (snd (get_auth_client L w))) = filter is_network (trace w)"
      by (simp add: r)
    show "auth_client (snd (get_auth_client L w)) = None"
      by (simp add: r assms(1))
  next
    assume t: "\<not> falsy cid \<and> \<not> falsy cs"
    then obtain i s where both: "cid = Some i" "cs = Some s" "i \<noteq> []" "s \<noteq> []"
      by (auto simp: falsy_def split: option.splits)
    then have r: "get_auth_client L w = construct_AuthClient L i s (after_secrets L w)"
      unfolding eq by simp
    have "fst (get_auth_client L w) = new_AuthClient L i s (ENV w) (REDIRECT_URI w)"
      unfolding r by (simp add: construct_AuthClient_def Let_def split: sum.splits)
    moreover have "auth_client (snd (get_auth_client L w)) =
        (case new_AuthClient L i s (ENV w) (REDIRECT_URI w) of Inl e \<Rightarrow> None | Inr ac \<Rightarrow> Some ac)"
      unfolding r by (simp add: construct_AuthClient_def Let_def assms(1) split: sum.splits)
    ultimately show "\<exists>i s. cid = Some i \<and> cs = Some s \<and>
               fst (get_auth_client L w) = new_AuthClient L i s (ENV w) (REDIRECT_URI w) \<and>
               auth_client (snd (get_auth_client L w)) =
                 (case new_AuthClient L i s (ENV w) (REDIRECT_URI w) of
                    Inl e \<Rightarrow> None | Inr ac \<Rightarrow> Some ac)"
      using both by blast
  qed
qed

section \<open>Properties of the callback listener\<close>

lemma seq_lift_Inl [simp]: "seq (lift (Inl e)) f w = (Inl e, w)"
  by (simp add: seq_def lift_def)

lemma seq_lift_Inr [simp]: "seq (lift (Inr x)) f w = f x w"
  by (simp add: seq_def lift_def)

lemma seq_emit [simp]: "seq (emit e) f w = f () (w\<lparr>trace := trace w @ [e]\<rparr>)"
  by (simp add: seq_def emit_def)

lemma seq_Inl: "m w = (Inl e, w') \<Longrightarrow> seq m f w = (Inl e, w')"
  by (simp add: seq_def)

lemma seq_Inr: "m w = (Inr x, w') \<Longrightarrow> seq m f w = f x w'"
  by (simp add: seq_def)

text \<open>Kinds of events: those of \<open>get_auth_client\<close>, those the browser receives, and the
  code exchange. The response of the handler is three events.\<close>

definition is_setup :: "event \<Rightarrow> bool" where
  "is_setup e = (case e of KeyringGet _ _ \<Rightarrow> True | NewAuthClient _ _ _ _ \<Rightarrow> True | _ \<Rightarrow> False)"

definition is_browser :: "event \<Rightarrow> bool" where
  "is_browser e =
     (case e of SendResponse _ \<Rightarrow> True | EndHeaders \<Rightarrow> True | WfileWrite _ \<Rightarrow> True | _ \<Rightarrow> False)"

definition is_exchange :: "event \<Rightarrow> bool" where
  "is_exchange e = (case e of GetBearerToken _ _ \<Rightarrow> True | _ \<Rightarrow> False)"

definition response_events :: "event list" where
  "response_events = [SendResponse 200, EndHeaders, WfileWrite ok_body]"

lemma keychain_reads_setup [simp]: "list_all is_setup (keychain_reads L name w)"
  by (simp add: keychain_reads_def is_setup_def split: option.splits)

text \<open>What get_auth_client leaves behind.\<close>

lemma get_auth_client_effect:
  "\<exists>evs. trace (snd (get_auth_client L w)) = trace w @ evs \<and> list_all is_setup evs \<and>
     inbox (snd (get_auth_client L w)) = inbox w \<and>
     files (snd (get_auth_client L w)) = files w"
proof (cases "auth_client w")
  case (Some ac)
  then show ?thesis by (simp add: get_auth_client_def)
next
  case None
  let ?ev = "keychain_reads L ''client_id'' w @ keychain_reads L ''client_secret'' w"
  have a: "trace (after_secrets L w) = trace w @ ?ev" by (simp add: after_secrets_def)
  have c: "\<exists>evs. trace (snd (construct_AuthClient L i s (after_secrets L w))) = trace w @ evs \<and>
      list_all is_setup evs \<and>
      inbox (snd (construct_AuthClient L i s (after_secrets L w))) = inbox w \<and>
      files (snd (construct_AuthClient L i s (after_secrets L w))) = files w" for i s
    by (cases "new_AuthClient L i s (ENV w) (REDIRECT_URI w)")
       (simp_all add: construct_AuthClient_def Let_def a is_setup_def)
  have f: "\<exists>evs. trace (after_secrets L w) = trace w @ evs \<and> list_all is_setup evs \<and>
      inbox (after_secrets L w) = inbox w \<and> files (after_secrets L w) = files w"
    by (simp add: a)
  show ?thesis
    unfolding get_auth_client_None [OF None]
    using c f by (simp split: option.splits)
qed


text \<open>The handler in two halves: reading the query, and what follows the response.\<close>

definition after_response :: "lib \<Rightarrow> string option \<Rightarrow> string option \<Rightarrow> unit action" where
  "after_response L code realm_id =
     seq (get_auth_client L) (\<lambda>ac.
     seq (exchange L ac code realm_id) (\<lambda>ac'.
     save_tokens \<lparr>tok_access = access_token ac', tok_refresh = refresh_token ac',
                  tok_realm = realm_id\<rparr>))"

definition callback_args :: "lib \<Rightarrow> string \<Rightarrow> error + string option \<times> string option" where
  "callback_args L p =
     and_then (parse_query L p) (\<lambda>qs.
     and_then (first_value qs ''code'') (\<lambda>code.
     and_then (first_value qs ''realmId'') (\<lambda>realm_id. Inr (code, realm_id))))"

lemma do_GET_eq:
  "do_GET L p w =
     (case callback_args L p of
        Inl e \<Rightarrow> (Inl e, w)
      | Inr (code, realm_id) \<Rightarrow>
          after_response L code realm_id (w\<lparr>trace := trace w @ response_events\<rparr>))"
  by (simp add: do_GET_def callback_args_def after_response_def response_events_def
      and_then_def split: sum.splits)

text \<open>After the client is there: nothing more, the exchange alone (it failed), or the
  exchange and the write of the token file.\<close>

definition is_tail :: "string option \<Rightarrow> string option \<Rightarrow> event list \<Rightarrow> bool" where
  "is_tail c r rest \<longleftrightarrow>
     rest = [] \<or> rest = [GetBearerToken c r] \<or>
     (\<exists>content. rest = [GetBearerToken c r, FileWrite ''tokens.json'' content])"

lemma after_response_effect:
  "\<exists>pre rest. trace (snd (after_response L c r w)) = trace w @ pre @ rest \<and>
     list_all is_setup pre \<and> is_tail c r rest \<and>
     inbox (snd (after_response L c r w)) = inbox w"
proof -
  obtain res w1 where g: "get_auth_client L w = (res, w1)" by (cases "get_auth_client L w")
  from get_auth_client_effect [of L w] g obtain pre
    where w1: "trace w1 = trace w @ pre" "list_all is_setup pre" "inbox w1 = inbox w"
    by auto
  show ?thesis
  proof (cases res)
    case (Inl e)
    with g have "after_response L c r w = (Inl e, w1)"
      by (simp add: after_response_def seq_Inl)
    with w1 show ?thesis by (auto simp: is_tail_def)
  next
    case (Inr ac)
    with g have a: "after_response L c r w =
        seq (exchange L ac c r) (\<lambda>ac'.
          save_tokens \<lparr>tok_access = access_token ac', tok_refresh = refresh_token ac',
                       tok_realm = r\<rparr>) w1"
      by (simp add: after_response_def seq_Inr)
    show ?thesis
    proof (cases "get_bearer_token L ac c r")
      case (Inl e)
      then have "after_response L c r w = (Inl e, w1\<lparr>trace := trace w1 @ [GetBearerToken c r]\<rparr>)"
        unfolding a by (simp add: seq_def exchange_def Let_def)
      with w1 show ?thesis by (auto simp: is_tail_def)
    next
      case (Inr ac')
      then have "after_response L c r w =
          save_tokens \<lparr>tok_access = access_token ac', tok_refresh = refresh_token ac',
                       tok_realm = r\<rparr>
            (w1\<lparr>trace := trace w1 @ [GetBearerToken c r], auth_client := Some ac'\<rparr>)"
        unfolding a by (simp add: seq_def exchange_def Let_def)
      with w1 show ?thesis
        by (auto simp: is_tail_def save_tokens_def write_file_def)
    qed
  qed
qed

text \<open>The events one call of the handler adds.\<close>

definition do_GET_events :: "lib \<Rightarrow> string \<Rightarrow> world \<Rightarrow> event list" where
  "do_GET_events L p w = drop (length (trace w)) (trace (snd (do_GET L p w)))"

lemma do_GET_effect:
  "trace (snd (do_GET L p w)) = trace w @ do_GET_events L p w \<and>
   inbox (snd (do_GET L p w)) = inbox w \<and>
   (case callback_args L p of
      Inl e \<Rightarrow> do_GET_events L p w = []
    | Inr (c, r) \<Rightarrow> (\<exists>pre rest. do_GET_events L p w = response_events @ pre @ rest \<and>
         list_all is_setup pre \<and> is_tail c r rest))"
proof (cases "callback_args L p")
  case (Inl e)
  then show ?thesis by (simp add: do_GET_eq do_GET_events_def)
next
  case (Inr cr)
  obtain c r where cr: "cr = (c, r)" by (cases cr)
  let ?w = "w\<lparr>trace := trace w @ response_events\<rparr>"
  from after_response_effect [of L c r ?w] obtain pre rest where
    t: "trace (snd (after_response L c r ?w)) = trace w @ response_events @ pre @ rest"
      "list_all is_setup pre" "is_tail c r rest"
      "inbox (snd (after_response L c r ?w)) = inbox w"
    by auto
  from Inr cr have d: "do_GET L p w = after_response L c r ?w" by (simp add: do_GET_eq)
  from t show ?thesis
    unfolding do_GET_events_def d using Inr cr by auto
qed


lemma filter_browser_setup: "list_all is_setup pre \<Longrightarrow> filter is_browser pre = []"
  by (induction pre) (auto simp: is_setup_def is_browser_def split: event.splits)


lemma filter_browser_tail: "is_tail c r rest \<Longrightarrow> filter is_browser rest = []"
  by (auto simp: is_tail_def is_browser_def)


lemma filter_browser_response [simp]: "filter is_browser response_events = response_events"
  by (simp add: response_events_def is_browser_def)

lemma filter_exchange_response [simp]: "filter is_exchange response_events = []"
  by (simp add: response_events_def is_exchange_def)

lemma callback_args_exchange [simp]:
  "callback_args (L\<lparr>get_bearer_token := ex\<rparr>) p = callback_args L p"
  by (simp add: callback_args_def)

lemma do_GET_browser:
  "filter is_browser (do_GET_events L p w) =
     (case callback_args L p of Inl e \<Rightarrow> [] | Inr cr \<Rightarrow> response_events)"
proof (cases "callback_args L p")
  case (Inl e)
  with do_GET_effect [of L p w] show ?thesis by simp
next
  case (Inr cr)
  with do_GET_effect [of L p w] obtain c r pre rest where
    "do_GET_events L p w = response_events @ pre @ rest"
    "list_all is_setup pre" "is_tail c r rest"
    by (cases cr) auto
  with Inr show ?thesis
    by (simp add: filter_browser_setup filter_browser_tail)
qed

text \<open>
  C2. The events of one callback extend the trace. What they send to the browser is the
  same whatever the token exchange answers, success or failure. And when the exchange is
  attempted, the whole response (status 200, end of headers, the fixed body) stands before
  it and nothing is sent to the browser after it.
\<close>

theorem callback_response_fixed:
  "trace (snd (do_GET L p w)) = trace w @ do_GET_events L p w \<and>
   filter is_browser (do_GET_events (L\<lparr>get_bearer_token := ex1\<rparr>) p w) =
     filter is_browser (do_GET_events (L\<lparr>get_bearer_token := ex2\<rparr>) p w) \<and>
   (list_ex is_exchange (do_GET_events L p w) \<longrightarrow>
      (\<exists>rest. do_GET_events L p w = response_events @ rest \<and> filter is_browser rest = []))"
proof (intro conjI impI)
  show "trace (snd (do_GET L p w)) = trace w @ do_GET_events L p w"
    using do_GET_effect [of L p w] by simp
  show "filter is_browser (do_GET_events (L\<lparr>get_bearer_token := ex1\<rparr>) p w) =
     filter is_browser (do_GET_events (L\<lparr>get_bearer_token := ex2\<rparr>) p w)"
    by (simp add: do_GET_browser)
next
  assume ex: "list_ex is_exchange (do_GET_events L p w)"
  show "\<exists>rest. do_GET_events L p w = response_events @ rest \<and> filter is_browser rest = []"
  proof (cases "callback_args L p")
    case (Inl e)
    with do_GET_effect [of L p w] ex show ?thesis by simp
  next
    case (Inr cr)
    with do_GET_effect [of L p w] obtain c r pre rest where
      "do_GET_events L p w = response_events @ pre @ rest"
      "list_all is_setup pre" "is_tail c r rest"
      by (cases cr) auto
    then show ?thesis
      by (intro exI [of _ "pre @ rest"]) (simp add: filter_browser_setup filter_browser_tail)
  qed
qed











section \<open>Properties of the report client\<close>

text \<open>
  The host \<open>ENV\<close> selects; the realm and the access token the token file gives, or the
  exception of reading them; the URLs requested in a trace; and what follows the reply to
  the company-info request.
\<close>

definition base_url :: "world \<Rightarrow> string" where
  "base_url w =
     (if ENV w = ''sandbox'' then ''https://sandbox-quickbooks.api.intuit.com''
      else ''https://quickbooks.api.intuit.com'')"

definition token_fields :: "lib \<Rightarrow> world \<Rightarrow> error + json \<times> json" where
  "token_fields L w =
     and_then (fst (load_tokens L w)) (\<lambda>t.
     and_then (py_item t ''realm_id'') (\<lambda>rid.
     and_then (py_item t ''access_token'') (\<lambda>tok. Inr (rid, tok))))"

definition requested_urls :: "event list \<Rightarrow> string list" where
  "requested_urls evs = concat (map (\<lambda>e. case e of HttpGet u _ _ \<Rightarrow> [u] | _ \<Rightarrow> []) evs)"

definition after_reply :: "lib \<Rightarrow> string \<Rightarrow> (error + response) \<Rightarrow> unit action" where
  "after_reply L url reply w =
     (case reply of
        Inl e \<Rightarrow> (Inl e, w)
      | Inr r \<Rightarrow>
          if 400 \<le> status_code r \<and> status_code r < 600 then (Inl (HTTPError (status_code r)), w)
          else
            (case json_loads L (text_body r) of
               Inl e \<Rightarrow> (Inl e, w)
             | Inr body \<Rightarrow>
                 (Inr (), w\<lparr>trace := trace w @
                    [Print (json_dumps L body), Print (''DEBUG URL: '' @ url)]\<rparr>)))"

lemma load_tokens_world [simp]: "snd (load_tokens L w) = w"
  by (simp add: load_tokens_def split: option.splits)

lemma token_fieldsD:
  assumes "token_fields L w = Inr (rid, tok)"
  obtains t where "load_tokens L w = (Inr t, w)" "py_item t ''realm_id'' = Inr rid"
    "py_item t ''access_token'' = Inr tok"
proof -
  obtain res where l: "load_tokens L w = (res, w)"
    using load_tokens_world [of L w] by (cases "load_tokens L w") simp
  with assms obtain t where t: "res = Inr t"
    by (cases res) (simp_all add: token_fields_def)
  from assms l t have "py_item t ''realm_id'' = Inr rid \<and> py_item t ''access_token'' = Inr tok"
    by (auto simp: token_fields_def and_then_def split: sum.splits)
  with l t that show ?thesis by blast
qed

lemma company_info_raw_fields:
  assumes "token_fields L w = Inr (rid, tok)"
  shows "company_info_raw L w =
           after_reply L (company_info_url L (base_url w) rid rid)
             (requests_get L (company_info_url L (base_url w) rid rid) (bearer_headers L tok))
             (w\<lparr>trace := trace w @
                [HttpGet (company_info_url L (base_url w) rid rid) (bearer_headers L tok) 30]\<rparr>)"
proof -
  from assms obtain t where t: "load_tokens L w = (Inr t, w)" "py_item t ''realm_id'' = Inr rid"
    "py_item t ''access_token'' = Inr tok"
    by (rule token_fieldsD)
  show ?thesis
    unfolding company_info_raw_def
    by (simp add: seq_def t read_ENV_def Let_def http_get_def
        after_reply_def base_url_def raise_for_status_def lift_def emit_def
        split: sum.splits)
qed


lemma get_transactions_fields:
  assumes "token_fields L w = Inr (rid, tok)"
  shows "trace (snd (get_transactions L sd ed w)) =
           trace w @ [HttpGet (transactions_url L (base_url w) rid sd ed) (bearer_headers L tok) 30]"
proof -
  from assms obtain t where t: "load_tokens L w = (Inr t, w)" "py_item t ''realm_id'' = Inr rid"
    "py_item t ''access_token'' = Inr tok"
    by (rule token_fieldsD)
  show ?thesis
    unfolding get_transactions_def
    by (simp add: seq_def t read_ENV_def Let_def http_get_def
        base_url_def raise_for_status_def lift_def split: sum.splits)
qed

lemma requested_urls_append [simp]:
  "requested_urls (xs @ ys) = requested_urls xs @ requested_urls ys"
  by (simp add: requested_urls_def)

lemma requested_urls_simps [simp]:
  "requested_urls [] = []"
  "requested_urls (HttpGet u h t # evs) = u # requested_urls evs"
  "requested_urls (Print s # evs) = requested_urls evs"
  by (simp_all add: requested_urls_def)

lemma after_reply_urls:
  "requested_urls (trace (snd (after_reply L url reply w))) = requested_urls (trace w)"
  by (simp add: after_reply_def split: sum.splits)

text \<open>
  C6. When the token file gives a realm and an access token, each of the two operations
  sends one request, to the host that \<open>ENV\<close> selects followed by its path: the sandbox
  host when \<open>ENV\<close> is \<open>sandbox\<close>, the production host otherwise, the same for both.
\<close>

theorem report_client_host:
  assumes "token_fields L w = Inr (rid, tok)"
  shows "requested_urls (trace (snd (company_info_raw L w))) =
           requested_urls (trace w) @
             [base_url w @ ''/v3/company/'' @ py_str L rid @ ''/companyinfo/'' @ py_str L rid @
                ''?minorversion=75''] \<and>
         requested_urls (trace (snd (get_transactions L sd ed w))) =
           requested_urls (trace w) @
             [base_url w @ ''/v3/company/'' @ py_str L rid @
                ''/reports/TransactionList?start_date='' @ sd @ ''&end_date='' @ ed @
                ''&minorversion=75''] \<and>
         (ENV w = ''sandbox'' \<longrightarrow> base_url w = ''https://sandbox-quickbooks.api.intuit.com'') \<and>
         (ENV w \<noteq> ''sandbox'' \<longrightarrow> base_url w = ''https://quickbooks.api.intuit.com'')"
proof (intro conjI)
  show "requested_urls (trace (snd (company_info_raw L w))) =
           requested_urls (trace w) @
             [base_url w @ ''/v3/company/'' @ py_str L rid @ ''/companyinfo/'' @ py_str L rid @
                ''?minorversion=75'']"
    unfolding company_info_raw_fields [OF assms] after_reply_urls
    by (simp add: company_info_url_def)
  show "requested_urls (trace (snd (get_transactions L sd ed w))) =
           requested_urls (trace w) @
             [base_url w @ ''/v3/company/'' @ py_str L rid @
                ''/reports/TransactionList?start_date='' @ sd @ ''&end_date='' @ ed @
                ''&minorversion=75'']"
    unfolding get_transactions_fields [OF assms]
    by (simp add: transactions_url_def)
qed (simp_all add: base_url_def)

text \<open>
  C7, as amended. When the remote API answers the company-info request with a status from
  400 to 599, the operation raises HTTPError; the request is the only event, so nothing is
  printed and nothing is retried.
\<close>

theorem company_info_http_error:
  assumes "token_fields L w = Inr (rid, tok)"
    and "requests_get L (company_info_url L (base_url w) rid rid) (bearer_headers L tok) = Inr r"
    and "400 \<le> status_code r" and "status_code r < 600"
  shows "company_info_raw L w =
           (Inl (HTTPError (status_code r)),
            w\<lparr>trace := trace w @
              [HttpGet (company_info_url L (base_url w) rid rid) (bearer_headers L tok) 30]\<rparr>)"
  unfolding company_info_raw_fields [OF assms(1)]
  using assms(2-4) by (simp add: after_reply_def)

section \<open>The token file, saved and loaded\<close>

text \<open>The dict that loading a saved record returns.\<close>

definition token_json :: "token_record \<Rightarrow> json" where
  "token_json t =
     JObj [(''access_token'', opt_json (tok_access t)),
           (''refresh_token'', opt_json (tok_refresh t)),
           (''realm_id'', opt_json (tok_realm t))]"

lemma decode_token_items: "json_decode (json_dump_indent2 (token_items t)) = Inr (token_json t)"
  by (simp add: decode_dump token_items_def token_json_def)

lemma save_tokens_eq:
  "save_tokens t w =
     (Inr (), w\<lparr>files := (files w)(''tokens.json'' \<mapsto> json_dump_indent2 (token_items t)),
                trace := trace w @ [FileWrite ''tokens.json'' (json_dump_indent2 (token_items t))]\<rparr>)"
  by (simp add: save_tokens_def write_file_def)

lemma load_after_save:
  "load_tokens (L\<lparr>json_loads := json_decode\<rparr>) (snd (save_tokens t w)) =
     (Inr (token_json t), snd (save_tokens t w))"
  by (simp add: save_tokens_eq load_tokens_def decode_token_items)

text \<open>What a successful callback leaves: the tokens of the client, and the realm of the
  request, saved.\<close>

definition saved_by :: "lib \<Rightarrow> string \<Rightarrow> world \<Rightarrow> token_record \<Rightarrow> bool" where
  "saved_by L p w' t \<longleftrightarrow>
     (\<exists>ac c. auth_client w' = Some ac \<and> tok_access t = access_token ac \<and>
        tok_refresh t = refresh_token ac \<and> callback_args L p = Inr (c, tok_realm t)) \<and>
     files w' ''tokens.json'' = Some (json_dump_indent2 (token_items t))"

lemma after_response_ok:
  assumes "fst (after_response L c r w) = Inr ()"
  shows "\<exists>ac' w3. after_response L c r w =
           save_tokens \<lparr>tok_access = access_token ac', tok_refresh = refresh_token ac',
                        tok_realm = r\<rparr> w3 \<and> auth_client w3 = Some ac'"
proof -
  obtain res w1 where g: "get_auth_client L w = (res, w1)" by (cases "get_auth_client L w")
  show ?thesis
  proof (cases res)
    case (Inl e)
    with g have "after_response L c r w = (Inl e, w1)"
      by (simp add: after_response_def seq_def)
    with assms show ?thesis by simp
  next
    case (Inr ac)
    show ?thesis
    proof (cases "get_bearer_token L ac c r")
      case (Inl e)
      with g Inr have "fst (after_response L c r w) = Inl e"
        by (simp add: after_response_def seq_def exchange_def Let_def)
      with assms show ?thesis by simp
    next
      case ok: (Inr ac')
      with g Inr have "after_response L c r w =
          save_tokens \<lparr>tok_access = access_token ac', tok_refresh = refresh_token ac',
                       tok_realm = r\<rparr>
            (w1\<lparr>trace := trace w1 @ [GetBearerToken c r], auth_client := Some ac'\<rparr>)"
        by (simp add: after_response_def seq_def exchange_def Let_def)
      moreover have "auth_client (w1\<lparr>trace := trace w1 @ [GetBearerToken c r],
          auth_client := Some ac'\<rparr>) = Some ac'"
        by simp
      ultimately show ?thesis by blast
    qed
  qed
qed

lemma do_GET_ok:
  assumes "fst (do_GET L p w) = Inr ()"
  shows "\<exists>t w3. do_GET L p w = save_tokens t w3 \<and> saved_by L p (snd (save_tokens t w3)) t"
proof (cases "callback_args L p")
  case (Inl e)
  with assms show ?thesis by (simp add: do_GET_eq)
next
  case (Inr cr)
  obtain c r where cr: "cr = (c, r)" by (cases cr)
  let ?w = "w\<lparr>trace := trace w @ response_events\<rparr>"
  from Inr cr have d: "do_GET L p w = after_response L c r ?w" by (simp add: do_GET_eq)
  with assms have "fst (after_response L c r ?w) = Inr ()" by simp
  from after_response_ok [OF this] obtain ac' w3 where
    a: "after_response L c r ?w =
          save_tokens \<lparr>tok_access = access_token ac', tok_refresh = refresh_token ac',
                       tok_realm = r\<rparr> w3" "auth_client w3 = Some ac'"
    by blast
  let ?t = "\<lparr>tok_access = access_token ac', tok_refresh = refresh_token ac', tok_realm = r\<rparr>"
  have "saved_by L p (snd (save_tokens ?t w3)) ?t"
    using a(2) Inr cr by (simp add: saved_by_def save_tokens_eq)
  with d a(1) show ?thesis by metis
qed

text \<open>
  C8. Saving a token record makes the dump of that record the content of
  \<open>tokens.json\<close>, whatever the file held; loading the file then returns the dict of
  the three fields, each equal to the one saved. After a callback that returned normally
  the file holds the record of the client's tokens and the request's realm, and loading
  returns it.
\<close>

theorem token_file_round_trip:
  "files (snd (save_tokens t w)) ''tokens.json'' = Some (json_dump_indent2 (token_items t)) \<and>
   load_tokens (L\<lparr>json_loads := json_decode\<rparr>) (snd (save_tokens t w)) =
     (Inr (token_json t), snd (save_tokens t w)) \<and>
   py_item (token_json t) ''access_token'' = Inr (opt_json (tok_access t)) \<and>
   py_item (token_json t) ''refresh_token'' = Inr (opt_json (tok_refresh t)) \<and>
   py_item (token_json t) ''realm_id'' = Inr (opt_json (tok_realm t)) \<and>
   (fst (do_GET L p w) = Inr () \<longrightarrow>
      (\<exists>t'. saved_by L p (snd (do_GET L p w)) t' \<and>
         load_tokens (L\<lparr>json_loads := json_decode\<rparr>) (snd (do_GET L p w)) =
           (Inr (token_json t'), snd (do_GET L p w))))"
proof (intro conjI impI)
  show "files (snd (save_tokens t w)) ''tokens.json'' = Some (json_dump_indent2 (token_items t))"
    by (simp add: save_tokens_eq)
  show "load_tokens (L\<lparr>json_loads := json_decode\<rparr>) (snd (save_tokens t w)) =
     (Inr (token_json t), snd (save_tokens t w))"
    by (rule load_after_save)
  show "py_item (token_json t) ''access_token'' = Inr (opt_json (tok_access t))"
    by (simp add: token_json_def py_item_def)
  show "py_item (token_json t) ''refresh_token'' = Inr (opt_json (tok_refresh t))"
    by (simp add: token_json_def py_item_def)
  show "py_item (token_json t) ''realm_id'' = Inr (opt_json (tok_realm t))"
    by (simp add: token_json_def py_item_def)
next
  assume "fst (do_GET L p w) = Inr ()"
  from do_GET_ok [OF this] obtain t' w3 where
    d: "do_GET L p w = save_tokens t' w3" "saved_by L p (snd (save_tokens t' w3)) t'"
    by blast
  show "\<exists>t'. saved_by L p (snd (do_GET L p w)) t' \<and>
         load_tokens (L\<lparr>json_loads := json_decode\<rparr>) (snd (do_GET L p w)) =
           (Inr (token_json t'), snd (do_GET L p w))"
    unfolding d(1) using d(2) load_after_save [of L t' w3] by blast
qed

section \<open>Concrete runs\<close>

text \<open>
  A library for the examples. Its constructor and its exchange succeed (the exchange
  fails without a code), its query parser knows one callback path, the remote API answers
  404, JSON texts are decoded by the decoder above. \<open>demo_dumps\<close> and \<open>demo_str\<close> are
  right on what the examples print and format: strings, None and dicts of those.
\<close>

text \<open>The upper case of the examples' library: the letters a to z change, nothing else
  does. It agrees with \<^verbatim>\<open>str.upper\<close> on ASCII text, and the examples apply it to
  \<open>client_id\<close> and \<open>client_secret\<close> only.\<close>

definition ascii_upper_char :: "char \<Rightarrow> char" where
  "ascii_upper_char c =
     (let n = (of_char c :: nat) in if 97 \<le> n \<and> n \<le> 122 then char_of (n - 32) else c)"

definition ascii_upper :: "string \<Rightarrow> string" where
  "ascii_upper s = map ascii_upper_char s"

lemma upper_client_id: "ascii_upper ''client_id'' = ''CLIENT_ID''"
  by code_simp

lemma upper_client_secret: "ascii_upper ''client_secret'' = ''CLIENT_SECRET''"
  by code_simp

definition demo_dumps :: "json \<Rightarrow> string" where
  "demo_dumps v =
     (case v of
        JObj kvs \<Rightarrow>
          json_dump_indent2 (map (\<lambda>kv. (fst kv, case snd kv of JStr s \<Rightarrow> Some s | _ \<Rightarrow> None)) kvs)
      | JStr s \<Rightarrow> encode_string s
      | _ \<Rightarrow> ''null'')"

definition demo_str :: "json \<Rightarrow> string" where
  "demo_str v = (case v of JStr s \<Rightarrow> s | _ \<Rightarrow> ''None'')"

definition demo_lib :: lib where
  "demo_lib =
     \<lparr>new_AuthClient = (\<lambda>cid cs env uri.
        Inr \<lparr>client_id = cid, client_secret = cs, environment = env, redirect_uri = uri,
             access_token = None, refresh_token = None\<rparr>),
      get_authorization_url = (\<lambda>ac.
        Inr (''https://appcenter.intuit.com/connect/oauth2?client_id='' @ client_id ac)),
      get_bearer_token = (\<lambda>ac code realm_id.
        case code of
          None \<Rightarrow> Inl (LibError ''invalid_grant'')
        | Some c \<Rightarrow> Inr (ac\<lparr>access_token := Some (''AT-'' @ c), refresh_token := Some (''RT-'' @ c)\<rparr>)),
      parse_query = (\<lambda>p.
        if p = ''/callback?code=abc&realmId=42''
        then Inr [''code'' \<mapsto> [''abc''], ''realmId'' \<mapsto> [''42'']]
        else Inr Map.empty),
      bind_server = Inr (),
      requests_get = (\<lambda>url headers. Inr \<lparr>status_code = 404, text_body = ''{}''\<rparr>),
      json_loads = json_decode,
      json_dumps = demo_dumps,
      py_str = demo_str,
      str_upper = ascii_upper\<rparr>"

lemma demo_upper [simp]:
  "str_upper demo_lib ''client_id'' = ''CLIENT_ID''"
  "str_upper demo_lib ''client_secret'' = ''CLIENT_SECRET''"
  by (simp_all add: demo_lib_def upper_client_id upper_client_secret)

definition env_keys :: "string \<rightharpoonup> string" where
  "env_keys = [''QBO_CLIENT_ID'' \<mapsto> ''abc'', ''QBO_CLIENT_SECRET'' \<mapsto> ''s3'']"

definition callback_request :: request where
  "callback_request = \<lparr>command = ''GET'', path = ''/callback?code=abc&realmId=42''\<rparr>"

definition login_world :: world where
  "login_world = module_init env_keys Map.empty Map.empty
     [HttpRequest callback_request, HttpRequest callback_request]"

lemmas run_eval =
  login_def handle_request_def handle_one_request_def do_GET_def seq_def lift_def emit_def raise_def
  get_auth_client_def get_secret_def keyring_get_password_def construct_AuthClient_def
  exchange_def save_tokens_def write_file_def first_value_def module_init_def
  getenv_default_def demo_lib_def env_keys_def callback_request_def login_world_def
  upper_client_id upper_client_secret falsy_def Let_def SERVICE_def

lemma demo_do_GET:
  "do_GET demo_lib ''/callback?code=abc&realmId=42'' login_world =
     (Inr (),
      login_world\<lparr>
        auth_client := Some \<lparr>client_id = ''abc'', client_secret = ''s3'',
          environment = ''production'', redirect_uri = ''http://localhost:8000/callback'',
          access_token = Some ''AT-abc'', refresh_token = Some ''RT-abc''\<rparr>,
        files := [''tokens.json'' \<mapsto> json_dump_indent2 (token_items
          \<lparr>tok_access = Some ''AT-abc'', tok_refresh = Some ''RT-abc'', tok_realm = Some ''42''\<rparr>)],
        trace := [SendResponse 200, EndHeaders, WfileWrite ok_body,
          NewAuthClient ''abc'' ''s3'' ''production'' ''http://localhost:8000/callback'',
          GetBearerToken (Some ''abc'') (Some ''42''),
          FileWrite ''tokens.json'' (json_dump_indent2 (token_items
            \<lparr>tok_access = Some ''AT-abc'', tok_refresh = Some ''RT-abc'',
             tok_realm = Some ''42''\<rparr>))]\<rparr>)"
  by (simp add: run_eval)

definition callback_path :: string where
  "callback_path = ''/callback?code=abc&realmId=42''"

definition failing_exchange :: "AuthClient \<Rightarrow> string option \<Rightarrow> string option \<Rightarrow> error + AuthClient" where
  "failing_exchange ac code realm_id = Inl (LibError ''invalid_grant'')"

lemma demo_lib_same [simp]: "demo_lib\<lparr>get_bearer_token := get_bearer_token demo_lib\<rparr> = demo_lib"
  by simp

theorem callback_response_fixed_witness:
  "fst (do_GET (demo_lib\<lparr>get_bearer_token := failing_exchange\<rparr>) callback_path login_world) =
     Inl (LibError ''invalid_grant'') \<and>
   fst (do_GET demo_lib callback_path login_world) = Inr () \<and>
   list_ex is_exchange (do_GET_events demo_lib callback_path login_world) \<and>
   filter is_browser (do_GET_events (demo_lib\<lparr>get_bearer_token := failing_exchange\<rparr>)
     callback_path login_world) = response_events \<and>
   filter is_browser (do_GET_events demo_lib callback_path login_world) = response_events"
proof -
  have f: "do_GET (demo_lib\<lparr>get_bearer_token := failing_exchange\<rparr>) callback_path login_world =
      (Inl (LibError ''invalid_grant''),
       login_world\<lparr>
         auth_client := Some \<lparr>client_id = ''abc'', client_secret = ''s3'',
           environment = ''production'', redirect_uri = ''http://localhost:8000/callback'',
           access_token = None, refresh_token = None\<rparr>,
         trace := [SendResponse 200, EndHeaders, WfileWrite ok_body,
           NewAuthClient ''abc'' ''s3'' ''production'' ''http://localhost:8000/callback'',
           GetBearerToken (Some ''abc'') (Some ''42'')]\<rparr>)"
    by (simp add: run_eval callback_path_def failing_exchange_def)
  have t0: "trace login_world = []" by (simp add: login_world_def module_init_def)
  have a: "filter is_browser (do_GET_events (demo_lib\<lparr>get_bearer_token := failing_exchange\<rparr>)
     callback_path login_world) = response_events"
    by (simp add: do_GET_events_def f t0 is_browser_def response_events_def)
  have e: "list_ex is_exchange (do_GET_events demo_lib callback_path login_world)"
    by (simp add: do_GET_events_def demo_do_GET callback_path_def t0 is_exchange_def)
  from callback_response_fixed [of demo_lib callback_path login_world failing_exchange
      "get_bearer_token demo_lib"] a
  have "filter is_browser (do_GET_events demo_lib callback_path login_world) = response_events"
    by simp
  with a e f demo_do_GET show ?thesis by (simp add: callback_path_def)
qed





definition env_world :: world where
  "env_world = module_init [''QBO_CLIENT_ID'' \<mapsto> ''abc'']
     [(SERVICE, ''client_id'') \<mapsto> ''vault-id''] Map.empty []"

theorem get_secret_prefers_env_witness:
  "environ env_world ''QBO_CLIENT_ID'' = Some ''abc'' \<and>
   keychain env_world (SERVICE, ''client_id'') = Some ''vault-id'' \<and>
   get_secret demo_lib ''client_id'' env_world = (Inr (Some ''abc''), env_world) \<and>
   \<not> consults_keychain demo_lib ''client_id'' env_world"
proof -
  have e: "environ env_world (''QBO_'' @ str_upper demo_lib ''client_id'') = Some ''abc''"
    by (simp add: env_world_def module_init_def upper_client_id)
  from get_secret_prefers_env [where w = env_world and L = demo_lib and name = "''client_id''"
      and v = "''abc''"] e show ?thesis
    by (simp add: env_world_def module_init_def)
qed

definition empty_env_world :: world where
  "empty_env_world = module_init [''QBO_CLIENT_ID'' \<mapsto> '''']
     [(SERVICE, ''client_id'') \<mapsto> ''vault-id''] Map.empty []"

text \<open>
  C4 as stated fails: with \<open>QBO_CLIENT_ID\<close> set, to the empty string, the variable is
  not absent, and still the keychain is read and its value returned.
\<close>

theorem get_secret_prefers_env_counterexample:
  "environ empty_env_world ''QBO_CLIENT_ID'' = Some [] \<and>
   get_secret demo_lib ''client_id'' empty_env_world =
     (Inr (Some ''vault-id''),
      empty_env_world\<lparr>trace := [KeyringGet SERVICE ''client_id'']\<rparr>) \<and>
   consults_keychain demo_lib ''client_id'' empty_env_world"
  by (simp add: empty_env_world_def module_init_def get_secret_def keyring_get_password_def
      upper_client_id consults_keychain_def)

definition empty_secret_world :: world where
  "empty_secret_world = module_init [''QBO_CLIENT_SECRET'' \<mapsto> '''']
     [(SERVICE, ''client_secret'') \<mapsto> ''vault-secret''] Map.empty []"

theorem get_secret_empty_env_witness:
  "environ empty_secret_world ''QBO_CLIENT_SECRET'' = Some [] \<and>
   get_secret demo_lib ''client_secret'' empty_secret_world =
     (Inr (Some ''vault-secret''),
      empty_secret_world\<lparr>trace := [KeyringGet SERVICE ''client_secret'']\<rparr>)"
proof -
  have e: "environ empty_secret_world (''QBO_'' @ str_upper demo_lib ''client_secret'') = Some []"
    by (simp add: empty_secret_world_def module_init_def upper_client_secret)
  from get_secret_empty_env [OF e] e show ?thesis
    by (simp add: empty_secret_world_def module_init_def upper_client_secret)
qed

definition no_secret_world :: world where
  "no_secret_world = module_init [''QBO_CLIENT_ID'' \<mapsto> ''abc''] Map.empty Map.empty []"

definition keys_world :: world where
  "keys_world = module_init env_keys Map.empty Map.empty []"

theorem get_auth_client_first_use_witness:
  "auth_client no_secret_world = None \<and>
   fst (get_secret demo_lib ''client_id'' no_secret_world) = Inr (Some ''abc'') \<and>
   fst (get_secret demo_lib ''client_secret'' no_secret_world) = Inr None \<and>
   fst (get_auth_client demo_lib no_secret_world) = Inl (SystemExit missing_keys_message) \<and>
   filter is_network (trace (snd (get_auth_client demo_lib no_secret_world))) = [] \<and>
   auth_client keys_world = None \<and>
   fst (get_secret demo_lib ''client_id'' keys_world) = Inr (Some ''abc'') \<and>
   fst (get_secret demo_lib ''client_secret'' keys_world) = Inr (Some ''s3'') \<and>
   fst (get_auth_client demo_lib keys_world) =
     Inr \<lparr>client_id = ''abc'', client_secret = ''s3'', environment = ''production'',
          redirect_uri = ''http://localhost:8000/callback'',
          access_token = None, refresh_token = None\<rparr>"
proof -
  have n: "auth_client no_secret_world = None"
    "fst (get_secret demo_lib ''client_id'' no_secret_world) = Inr (Some ''abc'')"
    "fst (get_secret demo_lib ''client_secret'' no_secret_world) = Inr None"
    "trace no_secret_world = []"
    by (simp_all add: no_secret_world_def module_init_def get_secret_def
        keyring_get_password_def upper_client_id upper_client_secret)
  have k: "auth_client keys_world = None"
    "fst (get_secret demo_lib ''client_id'' keys_world) = Inr (Some ''abc'')"
    "fst (get_secret demo_lib ''client_secret'' keys_world) = Inr (Some ''s3'')"
    "ENV keys_world = ''production''"
    "REDIRECT_URI keys_world = ''http://localhost:8000/callback''"
    by (simp_all add: keys_world_def module_init_def get_secret_def env_keys_def
        getenv_default_def upper_client_id upper_client_secret)
  from get_auth_client_first_use [OF n(1-3)]
  have a: "fst (get_auth_client demo_lib no_secret_world) = Inl (SystemExit missing_keys_message)"
    "filter is_network (trace (snd (get_auth_client demo_lib no_secret_world))) = []"
    by (simp_all add: falsy_def n(4))
  from get_auth_client_first_use [OF k(1-3)]
  have b: "fst (get_auth_client demo_lib keys_world) =
     Inr \<lparr>client_id = ''abc'', client_secret = ''s3'', environment = ''production'',
          redirect_uri = ''http://localhost:8000/callback'',
          access_token = None, refresh_token = None\<rparr>"
    by (simp add: falsy_def k(4,5) demo_lib_def)
  from n k a b show ?thesis by simp
qed

definition blank_id_world :: world where
  "blank_id_world = module_init Map.empty
     [(SERVICE, ''client_id'') \<mapsto> '''', (SERVICE, ''client_secret'') \<mapsto> ''s3'']
     Map.empty []"

text \<open>
  C5 as stated fails: the keychain holds the empty string as client identifier (what
  \<^verbatim>\<open>setkeys\<close> stores on an empty input) and a client secret, so both lookups give a
  value, and still no client is constructed.
\<close>

theorem get_auth_client_counterexample:
  "auth_client blank_id_world = None \<and>
   fst (get_secret demo_lib ''client_id'' blank_id_world) = Inr (Some []) \<and>
   fst (get_secret demo_lib ''client_secret'' blank_id_world) = Inr (Some ''s3'') \<and>
   fst (get_auth_client demo_lib blank_id_world) = Inl (SystemExit missing_keys_message)"
  by (simp add: blank_id_world_def run_eval)

definition saved_tokens :: token_record where
  "saved_tokens = \<lparr>tok_access = Some ''AT'', tok_refresh = Some ''RT'', tok_realm = Some ''42''\<rparr>"

definition sandbox_world :: world where
  "sandbox_world = module_init [''QBO_ENV'' \<mapsto> ''sandbox''] Map.empty
     [''tokens.json'' \<mapsto> json_dump_indent2 (token_items saved_tokens)] []"

lemma sandbox_fields: "token_fields demo_lib sandbox_world = Inr (JStr ''42'', JStr ''AT'')"
  by (simp add: token_fields_def load_tokens_def sandbox_world_def module_init_def demo_lib_def
      decode_token_items token_json_def saved_tokens_def py_item_def opt_json_def)

lemma sandbox_ENV: "ENV sandbox_world = ''sandbox''" "trace sandbox_world = []"
  by (simp_all add: sandbox_world_def module_init_def getenv_default_def)

theorem report_client_host_witness:
  "ENV sandbox_world = ''sandbox'' \<and>
   token_fields demo_lib sandbox_world = Inr (JStr ''42'', JStr ''AT'') \<and>
   requested_urls (trace (snd (company_info_raw demo_lib sandbox_world))) =
     [''https://sandbox-quickbooks.api.intuit.com/v3/company/42/companyinfo/42?minorversion=75''] \<and>
   requested_urls (trace (snd (get_transactions demo_lib ''2024-01-01'' ''2024-01-31''
       sandbox_world))) =
     [''https://sandbox-quickbooks.api.intuit.com/v3/company/42/reports/TransactionList?start_date=2024-01-01&end_date=2024-01-31&minorversion=75'']"
proof -
  have s: "py_str demo_lib (JStr ''42'') = ''42''"
    by (simp add: demo_lib_def demo_str_def)
  from report_client_host [OF sandbox_fields, of "''2024-01-01''" "''2024-01-31''"]
  show ?thesis
    by (simp add: sandbox_ENV sandbox_fields s)
qed

theorem company_info_http_error_witness:
  "token_fields demo_lib sandbox_world = Inr (JStr ''42'', JStr ''AT'') \<and>
   requests_get demo_lib
     (company_info_url demo_lib (base_url sandbox_world) (JStr ''42'') (JStr ''42''))
     (bearer_headers demo_lib (JStr ''AT'')) = Inr \<lparr>status_code = 404, text_body = ''{}''\<rparr> \<and>
   company_info_raw demo_lib sandbox_world =
     (Inl (HTTPError 404),
      sandbox_world\<lparr>trace :=
        [HttpGet ''https://sandbox-quickbooks.api.intuit.com/v3/company/42/companyinfo/42?minorversion=75''
           [(''Authorization'', ''Bearer AT''), (''Accept'', ''application/json'')] 30]\<rparr>)"
proof -
  have r: "requests_get demo_lib
     (company_info_url demo_lib (base_url sandbox_world) (JStr ''42'') (JStr ''42''))
     (bearer_headers demo_lib (JStr ''AT'')) = Inr \<lparr>status_code = 404, text_body = ''{}''\<rparr>"
    by (simp add: demo_lib_def)
  have u: "company_info_url demo_lib (base_url sandbox_world) (JStr ''42'') (JStr ''42'') =
      ''https://sandbox-quickbooks.api.intuit.com/v3/company/42/companyinfo/42?minorversion=75''"
    "bearer_headers demo_lib (JStr ''AT'') =
      [(''Authorization'', ''Bearer AT''), (''Accept'', ''application/json'')]"
    by (simp_all add: company_info_url_def bearer_headers_def base_url_def sandbox_ENV
        demo_lib_def demo_str_def)
  from company_info_http_error [OF sandbox_fields r] sandbox_fields r show ?thesis
    by (simp add: u sandbox_ENV)
qed

definition redirect_lib :: lib where
  "redirect_lib =
     demo_lib\<lparr>requests_get := (\<lambda>url headers. Inr \<lparr>status_code = 300, text_body = ''{}''\<rparr>)\<rparr>"

text \<open>
  C7 as stated fails: a response with status 300 and the body \<^verbatim>\<open>{}\<close> passes
  \<^verbatim>\<open>raise_for_status\<close>; the body is printed and the operation returns.
\<close>

theorem company_info_http_error_counterexample:
  "token_fields redirect_lib sandbox_world = Inr (JStr ''42'', JStr ''AT'') \<and>
   requests_get redirect_lib
     ''https://sandbox-quickbooks.api.intuit.com/v3/company/42/companyinfo/42?minorversion=75''
     [(''Authorization'', ''Bearer AT''), (''Accept'', ''application/json'')] =
     Inr \<lparr>status_code = 300, text_body = ''{}''\<rparr> \<and>
   company_info_raw redirect_lib sandbox_world =
     (Inr (),
      sandbox_world\<lparr>trace :=
        [HttpGet ''https://sandbox-quickbooks.api.intuit.com/v3/company/42/companyinfo/42?minorversion=75''
           [(''Authorization'', ''Bearer AT''), (''Accept'', ''application/json'')] 30,
         Print ''{}'',
         Print ''DEBUG URL: https://sandbox-quickbooks.api.intuit.com/v3/company/42/companyinfo/42?minorversion=75'']\<rparr>)"
proof -
  have f: "token_fields redirect_lib sandbox_world = Inr (JStr ''42'', JStr ''AT'')"
    by (simp add: token_fields_def load_tokens_def sandbox_world_def module_init_def
        redirect_lib_def demo_lib_def decode_token_items token_json_def saved_tokens_def
        py_item_def opt_json_def)
  have d: "json_decode ''{}'' = Inr (JObj [])"
    by (simp add: json_decode_def skip_ws_other finish_def)
  have p: "demo_dumps (JObj []) = ''{}''"
    by (simp add: demo_dumps_def json_dump_indent2_def)
  have L: "requests_get redirect_lib = (\<lambda>url headers. Inr \<lparr>status_code = 300, text_body = ''{}''\<rparr>)"
    "json_loads redirect_lib = json_decode" "json_dumps redirect_lib = demo_dumps"
    "py_str redirect_lib = demo_str"
    by (simp_all add: redirect_lib_def demo_lib_def)
  have u: "company_info_url redirect_lib (base_url sandbox_world) (JStr ''42'') (JStr ''42'') =
      ''https://sandbox-quickbooks.api.intuit.com/v3/company/42/companyinfo/42?minorversion=75''"
    "bearer_headers redirect_lib (JStr ''AT'') =
      [(''Authorization'', ''Bearer AT''), (''Accept'', ''application/json'')]"
    by (simp_all add: company_info_url_def bearer_headers_def base_url_def sandbox_ENV
        L demo_str_def)
  have r: "company_info_raw redirect_lib sandbox_world =
     (Inr (),
      sandbox_world\<lparr>trace :=
        [HttpGet ''https://sandbox-quickbooks.api.intuit.com/v3/company/42/companyinfo/42?minorversion=75''
           [(''Authorization'', ''Bearer AT''), (''Accept'', ''application/json'')] 30,
         Print ''{}'',
         Print ''DEBUG URL: https://sandbox-quickbooks.api.intuit.com/v3/company/42/companyinfo/42?minorversion=75'']\<rparr>)"
    unfolding company_info_raw_fields [OF f] u
    by (simp add: after_reply_def L d p sandbox_ENV)
  from f r show ?thesis by (simp add: L)
qed

theorem token_file_round_trip_witness:
  "fst (do_GET demo_lib callback_path login_world) = Inr () \<and>
   (\<exists>t. saved_by demo_lib callback_path (snd (do_GET demo_lib callback_path login_world)) t \<and>
      load_tokens demo_lib (snd (do_GET demo_lib callback_path login_world)) =
        (Inr (token_json t), snd (do_GET demo_lib callback_path login_world))) \<and>
   load_tokens demo_lib (snd (save_tokens saved_tokens login_world)) =
     (Inr (JObj [(''access_token'', JStr ''AT''), (''refresh_token'', JStr ''RT''),
                 (''realm_id'', JStr ''42'')]),
      snd (save_tokens saved_tokens login_world))"
proof -
  have l: "demo_lib\<lparr>json_loads := json_decode\<rparr> = demo_lib"
    by (simp add: demo_lib_def)
  have ok: "fst (do_GET demo_lib callback_path login_world) = Inr ()"
    by (simp add: demo_do_GET callback_path_def)
  from token_file_round_trip [of saved_tokens login_world demo_lib callback_path] ok
  show ?thesis
    unfolding l by (simp add: token_json_def saved_tokens_def opt_json_def)
qed

end
